theory Spec2Isabelle
  imports Main
begin

section \<open>Federated image search (libimage/search.go)\<close>

text \<open>
  A shallow embedding of \<^verbatim>\<open>libimage/search.go\<close>: the per-registry searcher
  (\<^verbatim>\<open>searchImageInRegistry\<close>, \<^verbatim>\<open>searchRepositoryTags\<close>), the three filter
  predicates, and the dispatcher \<^verbatim>\<open>Search\<close> with its semaphore, wait group and
  slot array. Strings are byte lists, Go's \<^verbatim>\<open>int\<close> is \<open>int\<close> (no arithmetic in
  this file can overflow: values are only compared and copied), a \<^verbatim>\<open>nil\<close> slice and
  an empty slice are both \<open>[]\<close>, and a \<^verbatim>\<open>nil\<close> error is \<open>None\<close>.
\<close>

subsection \<open>Constants\<close>

definition searchTruncLength :: nat where
  "searchTruncLength = 44"

definition searchMaxQueries :: int where
  "searchMaxQueries = 25"

definition searchMaxParallel :: nat where
  "searchMaxParallel = 6"

subsection \<open>Data\<close>

text \<open>\<^verbatim>\<open>types.OptionalBool\<close> of containers/image.\<close>

datatype OptionalBool = OptionalBoolUndefined | OptionalBoolTrue | OptionalBoolFalse

record SearchResult =
  Index :: string
  Name :: string
  Description :: string
  Stars :: int
  Official :: string
  Automated :: string
  Tag :: string

record SearchFilter =
  Filter_Stars :: int
  Filter_IsAutomated :: OptionalBool
  Filter_IsOfficial :: OptionalBool

record SearchOptions =
  Filter :: SearchFilter
  Limit :: int
  NoTrunc :: bool
  Authfile :: string
  InsecureSkipTLSVerify :: OptionalBool
  ListTags :: bool

text \<open>
  \<^verbatim>\<open>docker.SearchResult\<close>, one raw hit of the registry client (the fields have the
  prefix \<open>hit_\<close> because \<open>Name\<close> and \<open>Description\<close> are fields of
  \<open>SearchResult\<close> already).
\<close>

record docker_SearchResult =
  hit_Name :: string
  hit_Description :: string
  hit_StarCount :: int
  hit_IsTrusted :: bool
  hit_IsAutomated :: bool
  hit_IsOfficial :: bool

text \<open>The part of \<^verbatim>\<open>types.SystemContext\<close> that this file writes.\<close>

record SystemContext =
  DockerInsecureSkipTLSVerify :: OptionalBool

record Runtime =
  systemContext :: SystemContext

text \<open>
  What the code reads of a parsed \<^verbatim>\<open>types.ImageReference\<close>:
  \<^verbatim>\<open>Transport().Name()\<close> and \<^verbatim>\<open>DockerReference().Name()\<close>.
\<close>

record ImageReference =
  Transport_Name :: string
  DockerReference_Name :: string

text \<open>
  Errors. An error of a collaborator (registry client, configuration, context) is an
  opaque value of type \<open>'e\<close>; \<^verbatim>\<open>errors.Errorf\<close> keeps its format string and its
  arguments; the value \<^verbatim>\<open>Search\<close> returns is a plain error or a
  \<^verbatim>\<open>*multierror.Error\<close> with its list of causes.
\<close>

datatype 'e fmt_arg = Quoted string | Verb 'e

datatype 'e error = External 'e | Errorf string "'e fmt_arg list"

datatype 'e search_error = Plain "'e error" | MultiError "'e error list"

text \<open>
  The collaborators, as functions: \<^verbatim>\<open>sysregistriesv2.UnqualifiedSearchRegistries\<close>,
  \<^verbatim>\<open>docker.SearchRegistry\<close> (system context, registry, term, limit),
  \<^verbatim>\<open>alltransports.ParseImageName\<close> and \<^verbatim>\<open>docker.GetRepositoryTags\<close>.
\<close>

record 'e registry_client =
  UnqualifiedSearchRegistries :: "SystemContext \<Rightarrow> 'e + string list"
  SearchRegistry :: "SystemContext \<Rightarrow> string \<Rightarrow> string \<Rightarrow> int \<Rightarrow> 'e + docker_SearchResult list"
  ParseImageName :: "string \<Rightarrow> 'e + ImageReference"
  GetRepositoryTags :: "SystemContext \<Rightarrow> ImageReference \<Rightarrow> 'e + string list"

text \<open>The local type \<^verbatim>\<open>searchOutputData\<close> of \<^verbatim>\<open>Search\<close>: one slot per registry.\<close>

record 'e searchOutputData =
  data :: "SearchResult list"
  err :: "'e error option"

subsection \<open>The functions of package strings that the code calls\<close>

text \<open>
  \<^verbatim>\<open>strings.Split(s, sep)\<close> for a separator of one byte: the pieces between the
  separators, at least one (the recursive call never returns the empty list).
\<close>

fun strings_Split :: "string \<Rightarrow> char \<Rightarrow> string list" where
  "strings_Split [] sep = [[]]"
| "strings_Split (c # cs) sep =
     (if c = sep then [] # strings_Split cs sep
      else (case strings_Split cs sep of
              [] \<Rightarrow> [[c]]
            | x # xs \<Rightarrow> (c # x) # xs))"

text \<open>\<^verbatim>\<open>strings.SplitN(s, sep, 2)\<close> for a separator of one byte: cut at the first one.\<close>

definition strings_SplitN2 :: "string \<Rightarrow> char \<Rightarrow> string list" where
  "strings_SplitN2 s sep =
     (if sep \<in> set s
      then [takeWhile (\<lambda>c. c \<noteq> sep) s, tl (dropWhile (\<lambda>c. c \<noteq> sep) s)]
      else [s])"

fun strings_Join :: "string list \<Rightarrow> string \<Rightarrow> string" where
  "strings_Join [] sep = []"
| "strings_Join [x] sep = x"
| "strings_Join (x # y # ys) sep = x @ sep @ strings_Join (y # ys) sep"

text \<open>\<^verbatim>\<open>strings.ReplaceAll(s, old, new)\<close> for \<open>old\<close> and \<open>new\<close> of one byte each.\<close>

definition strings_ReplaceAll :: "string \<Rightarrow> char \<Rightarrow> char \<Rightarrow> string" where
  "strings_ReplaceAll s old new = map (\<lambda>c. if c = old then new else c) s"

text \<open>\<^verbatim>\<open>strings.Contains(s, sub)\<close> for \<open>sub\<close> of one byte.\<close>

definition strings_Contains :: "string \<Rightarrow> char \<Rightarrow> bool" where
  "strings_Contains s c = (c \<in> set s)"

subsection \<open>The filter predicates\<close>

definition matchesStarFilter :: "SearchFilter \<Rightarrow> docker_SearchResult \<Rightarrow> bool" where
  "matchesStarFilter f result = (hit_StarCount result \<ge> Filter_Stars f)"

definition matchesAutomatedFilter :: "SearchFilter \<Rightarrow> docker_SearchResult \<Rightarrow> bool" where
  "matchesAutomatedFilter f result =
     (if Filter_IsAutomated f \<noteq> OptionalBoolUndefined
      then hit_IsAutomated result = (Filter_IsAutomated f = OptionalBoolTrue)
      else True)"

definition matchesOfficialFilter :: "SearchFilter \<Rightarrow> docker_SearchResult \<Rightarrow> bool" where
  "matchesOfficialFilter f result =
     (if Filter_IsOfficial f \<noteq> OptionalBoolUndefined
      then hit_IsOfficial result = (Filter_IsOfficial f = OptionalBoolTrue)
      else True)"

subsection \<open>Tag-listing mode: \<^verbatim>\<open>searchRepositoryTags\<close>\<close>

text \<open>\<^verbatim>\<open>dockerTransport.Transport.Name()\<close>.\<close>

definition docker_Transport_Name :: string where
  "docker_Transport_Name = ''docker''"

text \<open>The limit of the tag loop (lines 227 to 236), from the option and \<^verbatim>\<open>len(tags)\<close>.\<close>

definition tagsLimit :: "SearchOptions \<Rightarrow> string list \<Rightarrow> int" where
  "tagsLimit options tags =
     (let limit = searchMaxQueries;
          limit = (if int (length tags) < limit then int (length tags) else limit)
      in if Limit options \<noteq> 0
         then (let limit = int (length tags)
               in if Limit options < limit then Limit options else limit)
         else limit)"

text \<open>The loop \<^verbatim>\<open>for i := 0; i < limit; i++\<close> over the tags (lines 238 to 244).\<close>

function tagsLoop :: "string \<Rightarrow> string list \<Rightarrow> int \<Rightarrow> nat \<Rightarrow> SearchResult list \<Rightarrow> SearchResult list" where
  "tagsLoop name tags limit i paramsArr =
     (if int i < limit
      then tagsLoop name tags limit (i + 1)
             (paramsArr @ [\<lparr>Index = [], Name = name, Description = [], Stars = 0,
                             Official = [], Automated = [], Tag = tags ! i\<rparr>])
      else paramsArr)"
  by pat_completeness auto
termination
  by (relation "measure (\<lambda>(name, tags, limit, i, paramsArr). nat (limit - int i))") auto

definition searchRepositoryTags ::
  "'e registry_client \<Rightarrow> SystemContext \<Rightarrow> string \<Rightarrow> string \<Rightarrow> SearchOptions \<Rightarrow> 'e error + SearchResult list" where
  "searchRepositoryTags cl sys registry term options =
     (let dockerPrefix = ''docker://'';
          mustBeDocker = Errorf ''reference %q must be a docker reference'' [Quoted term];
          parsed =
            (case ParseImageName cl (registry @ ''/'' @ term) of
               Inr imageRef \<Rightarrow>
                 if Transport_Name imageRef \<noteq> docker_Transport_Name then Inl mustBeDocker
                 else Inr imageRef
             | Inl e \<Rightarrow>
                 (case ParseImageName cl (dockerPrefix @ (registry @ ''/'' @ term)) of
                    Inl e' \<Rightarrow> Inl mustBeDocker
                  | Inr imageRef \<Rightarrow> Inr imageRef))
      in case parsed of
           Inl e \<Rightarrow> Inl e
         | Inr imageRef \<Rightarrow>
             (case GetRepositoryTags cl sys imageRef of
                Inl e \<Rightarrow> Inl (Errorf ''error getting repository tags: %v'' [Verb e])
              | Inr tags \<Rightarrow>
                  Inr (tagsLoop (DockerReference_Name imageRef) tags (tagsLimit options tags) 0 [])))"

subsection \<open>Repository-search mode: \<^verbatim>\<open>searchImageInRegistry\<close>\<close>

text \<open>The index of a registry (lines 157 to 161): its last two labels when it has more than two.\<close>

definition registryIndex :: "string \<Rightarrow> string" where
  "registryIndex registry =
     (let arr = strings_Split registry (CHR ''.'')
      in if length arr > 2 then strings_Join (drop (length arr - 2) arr) ''.'' else registry)"

text \<open>The limit of the hit loop (lines 166 to 175), from the option and \<^verbatim>\<open>len(results)\<close>.\<close>

definition resultsLimit :: "SearchOptions \<Rightarrow> docker_SearchResult list \<Rightarrow> int" where
  "resultsLimit options results =
     (let limit = searchMaxQueries;
          limit = (if int (length results) < limit then int (length results) else limit)
      in if Limit options \<noteq> 0
         then (let limit = int (length results)
               in if Limit options < int (length results) then Limit options else limit)
         else limit)"

text \<open>The body of the hit loop after the filter check (lines 183 to 206): \<^verbatim>\<open>params\<close>.\<close>

definition searchResultParams :: "SearchOptions \<Rightarrow> string \<Rightarrow> string \<Rightarrow> docker_SearchResult \<Rightarrow> SearchResult" where
  "searchResultParams options registry index result =
     (let official = (if hit_IsOfficial result then ''[OK]'' else []);
          automated = (if hit_IsAutomated result then ''[OK]'' else []);
          description = strings_ReplaceAll (hit_Description result) (CHR 0x0A) (CHR '' '');
          description =
            (if length description > 44 \<and> \<not> NoTrunc options
             then take searchTruncLength description @ ''...''
             else description);
          name = registry @ ''/'' @ hit_Name result;
          name =
            (if index = ''docker.io'' \<and> \<not> strings_Contains (hit_Name result) (CHR ''/'')
             then index @ ''/library/'' @ hit_Name result
             else name)
      in \<lparr>Index = index, Name = name, Description = description,
          Stars = hit_StarCount result, Official = official, Automated = automated,
          Tag = []\<rparr>)"

text \<open>The loop \<^verbatim>\<open>for i := 0; i < limit; i++\<close> over the hits (lines 178 to 208).\<close>

function resultsLoop ::
  "SearchOptions \<Rightarrow> string \<Rightarrow> string \<Rightarrow> docker_SearchResult list \<Rightarrow> int \<Rightarrow> nat \<Rightarrow> SearchResult list \<Rightarrow> SearchResult list" where
  "resultsLoop options registry index results limit i paramsArr =
     (if int i < limit
      then (if \<not> (matchesAutomatedFilter (Filter options) (results ! i)
                  \<and> matchesOfficialFilter (Filter options) (results ! i)
                  \<and> matchesStarFilter (Filter options) (results ! i))
            then resultsLoop options registry index results limit (i + 1) paramsArr
            else resultsLoop options registry index results limit (i + 1)
                   (paramsArr @ [searchResultParams options registry index (results ! i)]))
      else paramsArr)"
  by pat_completeness auto
termination
  by (relation "measure (\<lambda>(options, registry, index, results, limit, i, paramsArr). nat (limit - int i))") auto

text \<open>The limit handed to the registry client (lines 135 to 138).\<close>

definition queryLimit :: "SearchOptions \<Rightarrow> int" where
  "queryLimit options = (if Limit options > 0 then Limit options else searchMaxQueries)"

text \<open>The system context handed to the registry client (lines 140 to 143).\<close>

definition querySystemContext :: "Runtime \<Rightarrow> SearchOptions \<Rightarrow> SystemContext" where
  "querySystemContext r options =
     (if InsecureSkipTLSVerify options \<noteq> OptionalBoolUndefined
      then (systemContext r)\<lparr>DockerInsecureSkipTLSVerify := InsecureSkipTLSVerify options\<rparr>
      else systemContext r)"

definition searchImageInRegistry ::
  "'e registry_client \<Rightarrow> Runtime \<Rightarrow> string \<Rightarrow> string \<Rightarrow> SearchOptions \<Rightarrow> 'e error + SearchResult list" where
  "searchImageInRegistry cl r term registry options =
     (let limit = queryLimit options;
          sys = querySystemContext r options
      in if ListTags options
         then (case searchRepositoryTags cl sys registry term options of
                 Inl e \<Rightarrow> Inl e
               | Inr results \<Rightarrow> Inr results)
         else (case SearchRegistry cl sys registry term limit of
                 Inl e \<Rightarrow> Inl (External e)
               | Inr results \<Rightarrow>
                   Inr (resultsLoop options registry (registryIndex registry) results
                          (resultsLimit options results) 0 [])))"

subsection \<open>The dispatcher: \<^verbatim>\<open>Search\<close>\<close>

text \<open>
  The term parser (lines 85 to 88): the registry list and the term after the split.
\<close>

definition splitTerm :: "string list \<Rightarrow> string \<Rightarrow> string list \<times> string" where
  "splitTerm searchRegistries term =
     (let spl = strings_SplitN2 term (CHR ''/'')
      in if length spl > 1 then (searchRegistries @ [spl ! 0], spl ! 1)
         else (searchRegistries, term))"

text \<open>
  The body of the goroutine of slot \<open>index\<close> (lines 109 and 110): the value it writes
  into \<^verbatim>\<open>data[index]\<close>. On an error \<^verbatim>\<open>searchImageInRegistry\<close> returns the empty slice
  with it.
\<close>

definition searchTask ::
  "'e registry_client \<Rightarrow> Runtime \<Rightarrow> string \<Rightarrow> string list \<Rightarrow> SearchOptions \<Rightarrow> nat \<Rightarrow> 'e searchOutputData" where
  "searchTask cl r term searchRegistries options index =
     (case searchImageInRegistry cl r term (searchRegistries ! index) options of
        Inl e \<Rightarrow> \<lparr>data = [], err = Some e\<rparr>
      | Inr searchOutput \<Rightarrow> \<lparr>data = searchOutput, err = None\<rparr>)"

text \<open>
  \<^verbatim>\<open>multierror.Append(multiErr, d.err)\<close> on the list of causes: the first call makes
  the list, the later ones extend it.
\<close>

definition multierror_Append :: "'e error list option \<Rightarrow> 'e error \<Rightarrow> 'e error list" where
  "multierror_Append multiErr e = (case multiErr of None \<Rightarrow> [e] | Some es \<Rightarrow> es @ [e])"

text \<open>The loop over the slots (lines 117 to 123).\<close>

fun aggregateLoop ::
  "'e searchOutputData list \<Rightarrow> SearchResult list \<Rightarrow> 'e error list option
     \<Rightarrow> SearchResult list \<times> 'e error list option" where
  "aggregateLoop [] results multiErr = (results, multiErr)"
| "aggregateLoop (d # ds) results multiErr =
     (case err d of
        Some e \<Rightarrow> aggregateLoop ds results (Some (multierror_Append multiErr e))
      | None \<Rightarrow> aggregateLoop ds (results @ data d) multiErr)"

text \<open>Lines 115 to 130: what \<^verbatim>\<open>Search\<close> returns once every task has written its slot.\<close>

definition aggregate :: "'e searchOutputData list \<Rightarrow> SearchResult list \<times> 'e search_error option" where
  "aggregate slots =
     (case aggregateLoop slots [] None of
        (results, multiErr) \<Rightarrow>
          if length results > 0 then (results, None)
          else (results, map_option MultiError multiErr))"

text \<open>
  The concurrent part (lines 96 to 114) runs under a schedule: the list of the events
  in the order they happen.
  \<^item> \<open>Acquire_ok\<close>: \<^verbatim>\<open>sem.Acquire(ctx, 1)\<close> returns \<^verbatim>\<open>nil\<close> to the loop, which
    starts the goroutine of slot \<open>i\<close> and goes on to \<open>i + 1\<close>. A weighted semaphore
    grants a permit only while fewer than its capacity are held.
  \<^item> \<open>Acquire_err e\<close>: \<^verbatim>\<open>sem.Acquire(ctx, 1)\<close> returns the error of the context,
    and \<^verbatim>\<open>Search\<close> returns \<^verbatim>\<open>nil, err\<close>.
  \<^item> \<open>Complete index\<close>: the goroutine of slot \<open>index\<close> writes its slot and its
    deferred \<^verbatim>\<open>wg.Done()\<close> and \<^verbatim>\<open>sem.Release(1)\<close> run.
  \<^item> \<open>Wait_done\<close>: the loop is over, \<^verbatim>\<open>wg.Wait()\<close> returns because the counter
    is 0, and \<^verbatim>\<open>Search\<close> aggregates the slots and returns.
  An event that cannot happen in a state has no successor (\<open>None\<close>).
\<close>

datatype 'e event = Acquire_ok | Acquire_err 'e | Complete nat | Wait_done

text \<open>
  The state of one call: the loop variable \<open>i\<close>, the permits held, the counter of the
  wait group, the goroutines started and not yet completed, the slot array
  \<^verbatim>\<open>data\<close>, and the value returned, once \<^verbatim>\<open>Search\<close> has returned.
\<close>

record 'e search_state =
  loop_i :: nat
  sem_cur :: nat
  wg :: nat
  running :: "nat list"
  slots :: "'e searchOutputData list"
  returned :: "(SearchResult list \<times> 'e search_error option) option"

definition init :: "nat \<Rightarrow> 'e search_state" where
  "init n =
     \<lparr>loop_i = 0, sem_cur = 0, wg = n, running = [],
      slots = replicate n \<lparr>data = [], err = None\<rparr>, returned = None\<rparr>"

fun step ::
  "(nat \<Rightarrow> 'e searchOutputData) \<Rightarrow> nat \<Rightarrow> 'e search_state \<Rightarrow> 'e event \<Rightarrow> 'e search_state option" where
  "step task n s Acquire_ok =
     (if returned s = None \<and> loop_i s < n \<and> sem_cur s + 1 \<le> searchMaxParallel
      then Some (s\<lparr>sem_cur := sem_cur s + 1, running := running s @ [loop_i s],
                   loop_i := loop_i s + 1\<rparr>)
      else None)"
| "step task n s (Acquire_err e) =
     (if returned s = None \<and> loop_i s < n
      then Some (s\<lparr>returned := Some ([], Some (Plain (External e)))\<rparr>)
      else None)"
| "step task n s (Complete index) =
     (if index \<in> set (running s)
      then Some (s\<lparr>slots := (slots s)[index := task index], wg := wg s - 1,
                   sem_cur := sem_cur s - 1, running := removeAll index (running s)\<rparr>)
      else None)"
| "step task n s Wait_done =
     (if returned s = None \<and> loop_i s = n \<and> wg s = 0
      then Some (s\<lparr>returned := Some (aggregate (slots s))\<rparr>)
      else None)"

fun run ::
  "(nat \<Rightarrow> 'e searchOutputData) \<Rightarrow> nat \<Rightarrow> 'e search_state \<Rightarrow> 'e event list \<Rightarrow> 'e search_state option" where
  "run task n s [] = Some s"
| "run task n s (ev # evs) =
     (case step task n s ev of None \<Rightarrow> None | Some s' \<Rightarrow> run task n s' evs)"

text \<open>
  Lines 96 to 131 on a resolved registry list: the state the schedule leads to.
\<close>

definition dispatch ::
  "'e registry_client \<Rightarrow> Runtime \<Rightarrow> string list \<Rightarrow> string \<Rightarrow> SearchOptions \<Rightarrow> 'e event list
     \<Rightarrow> 'e search_state option" where
  "dispatch cl r searchRegistries term options sched =
     run (searchTask cl r term searchRegistries options) (length searchRegistries)
       (init (length searchRegistries)) sched"

text \<open>
  \<^verbatim>\<open>Search\<close>: \<open>Some\<close> of the pair it returns under the schedule, \<open>None\<close> when the
  schedule is not one of its runs or stops before it returns.
\<close>

definition Search ::
  "'e registry_client \<Rightarrow> Runtime \<Rightarrow> string \<Rightarrow> SearchOptions \<Rightarrow> 'e event list
     \<Rightarrow> (SearchResult list \<times> 'e search_error option) option" where
  "Search cl r term options sched =
     (case UnqualifiedSearchRegistries cl (systemContext r) of
        Inl e \<Rightarrow> Some ([], Some (Plain (External e)))
      | Inr searchRegistries \<Rightarrow>
          (case splitTerm searchRegistries term of
             (searchRegistries, term) \<Rightarrow>
               (case dispatch cl r searchRegistries term options sched of
                  None \<Rightarrow> None
                | Some s \<Rightarrow> returned s)))"

text \<open>
  The schedule on which the tasks run one after the other: acquire, complete, \<open>n\<close>
  times, then the wait returns.
\<close>

definition sequential :: "nat \<Rightarrow> 'e event list" where
  "sequential n = concat (map (\<lambda>i. [Acquire_ok, Complete i]) [0..<n]) @ [Wait_done]"

subsection \<open>The spec's words, and sample inputs\<close>

text \<open>
  The result filter in the spec's words: the star count is at least the configured minimum,
  and each tri-state that is set equals the hit's flag.
\<close>

definition filterPasses :: "SearchFilter \<Rightarrow> docker_SearchResult \<Rightarrow> bool" where
  "filterPasses f h =
     (hit_StarCount h \<ge> Filter_Stars f
      \<and> (case Filter_IsAutomated f of
             OptionalBoolUndefined \<Rightarrow> True
           | OptionalBoolTrue \<Rightarrow> hit_IsAutomated h
           | OptionalBoolFalse \<Rightarrow> \<not> hit_IsAutomated h)
      \<and> (case Filter_IsOfficial f of
             OptionalBoolUndefined \<Rightarrow> True
           | OptionalBoolTrue \<Rightarrow> hit_IsOfficial h
           | OptionalBoolFalse \<Rightarrow> \<not> hit_IsOfficial h))"

text \<open>Sample inputs: a client with two registries, one of which cannot be reached.\<close>

definition sample_hits :: "docker_SearchResult list" where
  "sample_hits =
     [\<lparr>hit_Name = ''alpine'', hit_Description = ''A minimal Docker image'',
       hit_StarCount = 9000, hit_IsTrusted = False, hit_IsAutomated = False,
       hit_IsOfficial = True\<rparr>,
      \<lparr>hit_Name = ''foo/bar'', hit_Description = ''An image of foo'',
       hit_StarCount = 2, hit_IsTrusted = False, hit_IsAutomated = True,
       hit_IsOfficial = False\<rparr>]"

definition fedora_hit :: docker_SearchResult where
  "fedora_hit =
     \<lparr>hit_Name = ''fedora'', hit_Description = ''Fedora base image'',
      hit_StarCount = 40, hit_IsTrusted = False, hit_IsAutomated = False,
      hit_IsOfficial = False\<rparr>"

definition sample_options :: SearchOptions where
  "sample_options =
     \<lparr>Filter = \<lparr>Filter_Stars = 0, Filter_IsAutomated = OptionalBoolUndefined,
                 Filter_IsOfficial = OptionalBoolUndefined\<rparr>,
      Limit = 0, NoTrunc = False, Authfile = [],
      InsecureSkipTLSVerify = OptionalBoolUndefined, ListTags = False\<rparr>"

definition sample_runtime :: Runtime where
  "sample_runtime = \<lparr>systemContext = \<lparr>DockerInsecureSkipTLSVerify = OptionalBoolUndefined\<rparr>\<rparr>"

definition sample_client :: "string registry_client" where
  "sample_client =
     \<lparr>UnqualifiedSearchRegistries = (\<lambda>sys. Inr [''docker.io'', ''quay.io'']),
      SearchRegistry = (\<lambda>sys registry term limit.
        if registry = ''docker.io'' then Inr sample_hits
        else if registry = ''registry.fedoraproject.org'' then Inr [fedora_hit]
        else Inl ''connection refused''),
      ParseImageName = (\<lambda>name.
        if take 9 name = ''docker://''
        then (if CHR '' '' \<in> set name then Inl ''invalid reference format''
              else Inr \<lparr>Transport_Name = ''docker'', DockerReference_Name = drop 9 name\<rparr>)
        else if take 4 name = ''oci:''
        then Inr \<lparr>Transport_Name = ''oci'', DockerReference_Name = []\<rparr>
        else Inl ''invalid image name''),
      GetRepositoryTags = (\<lambda>sys ref.
        if DockerReference_Name ref = ''docker.io/alpine'' then Inr [''3.18'', ''3.19'', ''latest'']
        else Inl ''unauthorized'')\<rparr>"

text \<open>A hit whose description has 50 bytes, one of them a newline.\<close>

definition long_hit :: docker_SearchResult where
  "long_hit =
     \<lparr>hit_Name = ''busybox'',
      hit_Description = [CHR ''B'', CHR ''u'', CHR ''s'', CHR ''y'', CHR 0x0A] @ ''box base image, very small userland for tests'',
      hit_StarCount = 3000, hit_IsTrusted = False, hit_IsAutomated = False,
      hit_IsOfficial = True\<rparr>"

text \<open>
  A client with eight registries, more than the semaphore has permits; none of them
  fails, and only the first has hits.
\<close>

definition eight_registries :: "string list" where
  "eight_registries = [''r0'', ''r1'', ''r2'', ''r3'', ''r4'', ''r5'', ''r6'', ''r7'']"

definition busy_client :: "string registry_client" where
  "busy_client =
     \<lparr>UnqualifiedSearchRegistries = (\<lambda>sys. Inr eight_registries),
      SearchRegistry = (\<lambda>sys registry term limit.
        if registry = ''r0'' then Inr sample_hits else Inr []),
      ParseImageName = (\<lambda>name. Inl ''invalid image name''),
      GetRepositoryTags = (\<lambda>sys ref. Inl ''unauthorized'')\<rparr>"

text \<open>A client whose configuration cannot be read.\<close>

definition unconfigured_client :: "string registry_client" where
  "unconfigured_client =
     \<lparr>UnqualifiedSearchRegistries = (\<lambda>sys. Inl ''cannot read registries.conf''),
      SearchRegistry = (\<lambda>sys registry term limit. Inr []),
      ParseImageName = (\<lambda>name. Inl ''invalid image name''),
      GetRepositoryTags = (\<lambda>sys ref. Inl ''unauthorized'')\<rparr>"

text \<open>Whether the query of a registry fails.\<close>

definition queryFails ::
  "'e registry_client \<Rightarrow> Runtime \<Rightarrow> string \<Rightarrow> SearchOptions \<Rightarrow> string \<Rightarrow> bool" where
  "queryFails cl r term options registry =
     (case searchImageInRegistry cl r term registry options of
        Inl e \<Rightarrow> True
      | Inr results \<Rightarrow> False)"

text \<open>
  The spec's words for the aggregation: the results of the registries whose query
  succeeds, concatenated in the order of the list, and the errors of those whose query
  fails, in that order.
\<close>

definition registryResults ::
  "'e registry_client \<Rightarrow> Runtime \<Rightarrow> string \<Rightarrow> SearchOptions \<Rightarrow> string list \<Rightarrow> SearchResult list" where
  "registryResults cl r term options registries =
     concat (map (\<lambda>registry.
       case searchImageInRegistry cl r term registry options of
         Inl e \<Rightarrow> []
       | Inr results \<Rightarrow> results) registries)"

definition registryErrors ::
  "'e registry_client \<Rightarrow> Runtime \<Rightarrow> string \<Rightarrow> SearchOptions \<Rightarrow> string list \<Rightarrow> 'e error list" where
  "registryErrors cl r term options registries =
     concat (map (\<lambda>registry.
       case searchImageInRegistry cl r term registry options of
         Inl e \<Rightarrow> [e]
       | Inr results \<Rightarrow> []) registries)"

text \<open>
  The invariant of the dispatcher: the permits held are the goroutines in flight, at most
  \<open>searchMaxParallel\<close> of them, each started once; the wait group counts the tasks not
  yet completed; a slot holds its task's outcome once the task has completed, and the
  zero value before.
\<close>

definition dispatch_inv :: "(nat \<Rightarrow> 'e searchOutputData) \<Rightarrow> nat \<Rightarrow> 'e search_state \<Rightarrow> bool" where
  "dispatch_inv task n s =
     (loop_i s \<le> n
      \<and> sem_cur s = length (running s)
      \<and> sem_cur s \<le> searchMaxParallel
      \<and> distinct (running s)
      \<and> set (running s) \<subseteq> {..<loop_i s}
      \<and> wg s + loop_i s = n + length (running s)
      \<and> length (slots s) = n
      \<and> (\<forall>i<n. slots s ! i =
            (if i < loop_i s \<and> i \<notin> set (running s) then task i
             else \<lparr>data = [], err = None\<rparr>)))"

text \<open>
  The spec measures a description in characters, the code in bytes. The characters of a
  string in UTF-8 are its bytes that are not continuation bytes (\<open>0x80\<close> to \<open>0xBF\<close>);
  \<open>accented_description\<close> is thirty times the letter e with an acute accent, of two bytes
  each.
\<close>

definition utf8_length :: "string \<Rightarrow> nat" where
  "utf8_length s = length (filter (\<lambda>c. \<not> (128 \<le> (of_char c :: nat) \<and> (of_char c :: nat) < 192)) s)"

definition accented_description :: string where
  "accented_description = concat (replicate 30 [CHR 0xC3, CHR 0xA9])"

definition accented_hit :: docker_SearchResult where
  "accented_hit =
     \<lparr>hit_Name = ''cafe'', hit_Description = accented_description,
      hit_StarCount = 1, hit_IsTrusted = False, hit_IsAutomated = False,
      hit_IsOfficial = False\<rparr>"

section \<open>Properties\<close>

subsection \<open>The two loops as list functions\<close>

lemma drop_take_step:
  "i < n \<Longrightarrow> n \<le> length xs \<Longrightarrow> drop i (take n xs) = xs ! i # drop (Suc i) (take n xs)"
  using Cons_nth_drop_Suc[of i "take n xs"] by simp

lemma resultsLoop_eq:
  "limit \<le> int (length results) \<Longrightarrow>
   resultsLoop options registry index results limit i paramsArr =
     paramsArr @ map (searchResultParams options registry index)
       (filter (\<lambda>h. matchesAutomatedFilter (Filter options) h
                    \<and> matchesOfficialFilter (Filter options) h
                    \<and> matchesStarFilter (Filter options) h)
          (drop i (take (nat limit) results)))"
proof (induction options registry index results limit i paramsArr rule: resultsLoop.induct)
  case (1 options registry index results limit i paramsArr)
  show ?case
  proof (cases "int i < limit")
    case False
    then have "drop i (take (nat limit) results) = []" by simp
    with False show ?thesis by (simp del: resultsLoop.simps add: resultsLoop.simps[of _ _ _ _ limit i])
  next
    case True
    with "1.prems" have d: "drop i (take (nat limit) results) = results ! i # drop (Suc i) (take (nat limit) results)"
      by (intro drop_take_step) auto
    show ?thesis
      using True "1.IH"(1)[OF True _ "1.prems"] "1.IH"(2)[OF True _ "1.prems"] d
      by (subst resultsLoop.simps) (auto simp del: resultsLoop.simps)
  qed
qed

lemma tagsLoop_eq:
  "limit \<le> int (length tags) \<Longrightarrow>
   tagsLoop name tags limit i paramsArr =
     paramsArr @ map (\<lambda>t. \<lparr>Index = [], Name = name, Description = [], Stars = 0,
                             Official = [], Automated = [], Tag = t\<rparr>)
       (drop i (take (nat limit) tags))"
proof (induction name tags limit i paramsArr rule: tagsLoop.induct)
  case (1 name tags limit i paramsArr)
  show ?case
  proof (cases "int i < limit")
    case False
    then have "drop i (take (nat limit) tags) = []" by simp
    with False show ?thesis by (simp del: tagsLoop.simps add: tagsLoop.simps[of _ _ limit i])
  next
    case True
    with "1.prems" have d: "drop i (take (nat limit) tags) = tags ! i # drop (Suc i) (take (nat limit) tags)"
      by (intro drop_take_step) auto
    show ?thesis
      using True "1.IH"[OF True "1.prems"] d
      by (subst tagsLoop.simps) (auto simp del: tagsLoop.simps)
  qed
qed

lemma resultsLimit_le: "resultsLimit options results \<le> int (length results)"
  by (simp add: resultsLimit_def searchMaxQueries_def Let_def)

lemma tagsLimit_le: "tagsLimit options tags \<le> int (length tags)"
  by (simp add: tagsLimit_def searchMaxQueries_def Let_def)

lemma searchImageInRegistry_hits:
  assumes "\<not> ListTags options"
    and "SearchRegistry cl (querySystemContext r options) registry term (queryLimit options) = Inr results"
  shows "searchImageInRegistry cl r term registry options =
     Inr (map (searchResultParams options registry (registryIndex registry))
       (filter (\<lambda>h. matchesAutomatedFilter (Filter options) h
                    \<and> matchesOfficialFilter (Filter options) h
                    \<and> matchesStarFilter (Filter options) h)
          (take (nat (resultsLimit options results)) results)))"
  using assms by (simp add: searchImageInRegistry_def resultsLoop_eq[OF resultsLimit_le] del: resultsLoop.simps)

subsection \<open>The result filter\<close>

lemma filter_eq_filterPasses:
  "(matchesAutomatedFilter f h \<and> matchesOfficialFilter f h \<and> matchesStarFilter f h) = filterPasses f h"
  by (auto simp: matchesAutomatedFilter_def matchesOfficialFilter_def matchesStarFilter_def
       filterPasses_def split: OptionalBool.splits)

text \<open>
  C7. A hit passes the filter exactly when its star count is at least the configured
  minimum and each tri-state that is set equals its flag; in repository-search mode the
  output is the formatted hits, in order, of those retained hits that pass: the others
  produce no result.
\<close>

theorem search_filter:
  "((matchesAutomatedFilter f h \<and> matchesOfficialFilter f h \<and> matchesStarFilter f h)
      = filterPasses f h)
   \<and> (\<not> ListTags options
        \<and> SearchRegistry cl (querySystemContext r options) registry term (queryLimit options)
              = Inr results
      \<longrightarrow> searchImageInRegistry cl r term registry options =
            Inr (map (searchResultParams options registry (registryIndex registry))
                  (filter (filterPasses (Filter options))
                     (take (nat (resultsLimit options results)) results))))"
proof (intro conjI impI)
  show "(matchesAutomatedFilter f h \<and> matchesOfficialFilter f h \<and> matchesStarFilter f h)
      = filterPasses f h"
    by (rule filter_eq_filterPasses)
next
  assume a: "\<not> ListTags options
        \<and> SearchRegistry cl (querySystemContext r options) registry term (queryLimit options)
              = Inr results"
  show "searchImageInRegistry cl r term registry options =
            Inr (map (searchResultParams options registry (registryIndex registry))
                  (filter (filterPasses (Filter options))
                     (take (nat (resultsLimit options results)) results)))"
    using searchImageInRegistry_hits[of options cl r registry "term" results] a
    by (simp add: filter_eq_filterPasses)
qed

lemma registryIndex_docker_io: "registryIndex ''docker.io'' = ''docker.io''"
  by (simp add: registryIndex_def)


theorem search_filter_witness:
  "searchImageInRegistry sample_client sample_runtime ''alp'' ''docker.io''
     (sample_options\<lparr>Filter := \<lparr>Filter_Stars = 5, Filter_IsAutomated = OptionalBoolUndefined,
                 Filter_IsOfficial = OptionalBoolTrue\<rparr>\<rparr>)
   = Inr [\<lparr>Index = ''docker.io'', Name = ''docker.io/library/alpine'',
           Description = ''A minimal Docker image'', Stars = 9000, Official = ''[OK]'',
           Automated = [], Tag = []\<rparr>]"
  using search_filter[of "\<lparr>Filter_Stars = 5, Filter_IsAutomated = OptionalBoolUndefined,
                 Filter_IsOfficial = OptionalBoolTrue\<rparr>" "hd sample_hits"
      "sample_options\<lparr>Filter := \<lparr>Filter_Stars = 5, Filter_IsAutomated = OptionalBoolUndefined,
                 Filter_IsOfficial = OptionalBoolTrue\<rparr>\<rparr>" sample_client sample_runtime
      "''docker.io''" "''alp''" sample_hits]
  by (simp add: sample_options_def sample_client_def sample_hits_def sample_runtime_def
       querySystemContext_def queryLimit_def resultsLimit_def searchMaxQueries_def
       filterPasses_def searchResultParams_def registryIndex_docker_io
       strings_ReplaceAll_def strings_Contains_def searchTruncLength_def)

subsection \<open>The result formatter\<close>

lemma utf8_length_ascii:
  "\<forall>c\<in>set s. (of_char c :: nat) < 128 \<Longrightarrow> utf8_length s = length s"
  by (induction s) (auto simp: utf8_length_def)

text \<open>
  C5 (amended). The description of a formatted hit is the hit's description with every
  newline replaced by a space; lengths are counted in bytes, as \<^verbatim>\<open>len\<close> and slicing
  do in Go: when that has more than 44 bytes and \<open>NoTrunc\<close> is false it is cut to its
  first 44 bytes followed by three dots, 47 bytes in all; with \<open>NoTrunc\<close> true (or at
  most 44 bytes) it is left whole. For a description in ASCII the bytes are its
  characters.
\<close>

theorem description_truncation:
  "(let d = map (\<lambda>c. if c = CHR 0x0A then CHR '' '' else c) (hit_Description result);
        out = Description (searchResultParams options registry index result)
    in (length d > 44 \<and> \<not> NoTrunc options
          \<longrightarrow> out = take 44 d @ ''...'' \<and> length out = 47)
       \<and> (NoTrunc options \<or> length d \<le> 44 \<longrightarrow> out = d)
       \<and> length d = length (hit_Description result)
       \<and> ((\<forall>c\<in>set (hit_Description result). (of_char c :: nat) < 128)
          \<longrightarrow> utf8_length d = length d \<and> utf8_length out = length out))"
proof -
  let ?d = "map (\<lambda>c. if c = CHR 0x0A then CHR '' '' else c) (hit_Description result)"
  let ?out = "Description (searchResultParams options registry index result)"
  have cut: "length ?d > 44 \<and> \<not> NoTrunc options
          \<longrightarrow> ?out = take 44 ?d @ ''...'' \<and> length ?out = 47"
    by (auto simp: searchResultParams_def strings_ReplaceAll_def searchTruncLength_def Let_def)
  have whole: "NoTrunc options \<or> length ?d \<le> 44 \<longrightarrow> ?out = ?d"
    by (auto simp: searchResultParams_def strings_ReplaceAll_def searchTruncLength_def Let_def)
  have ascii: "(\<forall>c\<in>set (hit_Description result). (of_char c :: nat) < 128)
          \<longrightarrow> utf8_length ?d = length ?d \<and> utf8_length ?out = length ?out"
  proof
    assume a: "\<forall>c\<in>set (hit_Description result). (of_char c :: nat) < 128"
    then have d: "\<forall>c\<in>set ?d. (of_char c :: nat) < 128" by auto
    have "\<forall>c\<in>set ?out. (of_char c :: nat) < 128"
    proof (cases "length ?d > 44 \<and> \<not> NoTrunc options")
      case True
      with cut have o: "?out = take 44 ?d @ ''...''" by blast
      have "set (take 44 ?d) \<subseteq> set ?d" by (rule set_take_subset)
      with d have "\<forall>c\<in>set (take 44 ?d). (of_char c :: nat) < 128" by blast
      then show ?thesis unfolding o by simp
    next
      case False
      with whole have "?out = ?d" by auto
      with d show ?thesis by simp
    qed
    with d show "utf8_length ?d = length ?d \<and> utf8_length ?out = length ?out"
      by (simp add: utf8_length_ascii)
  qed
  from cut whole ascii show ?thesis by (simp add: Let_def)
qed

theorem description_truncation_witness:
  "length (hit_Description long_hit) = 50
   \<and> utf8_length (hit_Description long_hit) = 50
   \<and> Description (searchResultParams sample_options ''docker.io'' ''docker.io'' long_hit)
       = ''Busy box base image, very small userland for...''
   \<and> length (Description (searchResultParams sample_options ''docker.io'' ''docker.io'' long_hit)) = 47
   \<and> utf8_length (Description (searchResultParams sample_options ''docker.io'' ''docker.io'' long_hit)) = 47
   \<and> Description (searchResultParams (sample_options\<lparr>NoTrunc := True\<rparr>) ''docker.io'' ''docker.io'' long_hit)
       = ''Busy box base image, very small userland for tests''"
proof -
  let ?d = "map (\<lambda>c. if c = CHR 0x0A then CHR '' '' else c) (hit_Description long_hit)"
  let ?out = "Description (searchResultParams sample_options ''docker.io'' ''docker.io'' long_hit)"
  let ?whole = "Description (searchResultParams (sample_options\<lparr>NoTrunc := True\<rparr>)
    ''docker.io'' ''docker.io'' long_hit)"
  have len: "length (hit_Description long_hit) = 50" by (simp add: long_hit_def)
  have u: "utf8_length (hit_Description long_hit) = 50" by code_simp
  have asc: "\<forall>c\<in>set (hit_Description long_hit). (of_char c :: nat) < 128"
    by (simp add: long_hit_def)
  have d: "?d = ''Busy box base image, very small userland for tests''"
    by (simp add: long_hit_def)
  have nt: "\<not> NoTrunc sample_options" "NoTrunc (sample_options\<lparr>NoTrunc := True\<rparr>)"
    by (simp_all add: sample_options_def)
  from description_truncation[of long_hit sample_options "''docker.io''" "''docker.io''"]
  have t: "(length ?d > 44 \<and> \<not> NoTrunc sample_options
          \<longrightarrow> ?out = take 44 ?d @ ''...'' \<and> length ?out = 47)"
    and a: "(\<forall>c\<in>set (hit_Description long_hit). (of_char c :: nat) < 128)
          \<longrightarrow> utf8_length ?out = length ?out"
    unfolding Let_def by blast+
  from description_truncation[of long_hit "sample_options\<lparr>NoTrunc := True\<rparr>"
      "''docker.io''" "''docker.io''"] nt(2)
  have w: "?whole = ?d"
    unfolding Let_def by blast
  from t nt(1) len have o: "?out = take 44 ?d @ ''...''" and l: "length ?out = 47"
    by simp_all
  from a asc l have ul: "utf8_length ?out = 47" by simp
  from o have o': "?out = ''Busy box base image, very small userland for...''"
    unfolding d by simp
  from len u o' l ul w d show ?thesis by (simp only: simp_thms)
qed

text \<open>
  The claim as stated, in characters, fails on a description that is not ASCII: thirty
  accented letters are 30 characters, fewer than 44, and 60 bytes, so the description is
  cut to 22 letters and the dots.
\<close>

theorem description_truncation_counterexample:
  "utf8_length (hit_Description accented_hit) = 30
   \<and> length (hit_Description accented_hit) = 60
   \<and> Description (searchResultParams sample_options ''docker.io'' ''docker.io'' accented_hit)
       = concat (replicate 22 [CHR 0xC3, CHR 0xA9]) @ ''...''
   \<and> utf8_length (Description (searchResultParams sample_options ''docker.io'' ''docker.io'' accented_hit)) = 25"
  by code_simp

text \<open>
  C6. The name of a formatted hit is the registry, a slash and the hit's name, except
  that on the index \<open>docker.io\<close> a hit's name without a slash goes under
  \<open>docker.io/library/\<close>; so are the names of the results of a repository search.
\<close>

theorem docker_hub_name:
  "Name (searchResultParams options registry (registryIndex registry) result) =
     (if registryIndex registry = ''docker.io'' \<and> CHR ''/'' \<notin> set (hit_Name result)
      then ''docker.io/library/'' @ hit_Name result
      else registry @ ''/'' @ hit_Name result)
   \<and> (\<not> ListTags options
        \<and> SearchRegistry cl (querySystemContext r options) registry term (queryLimit options)
              = Inr results
      \<longrightarrow> map_sum id (map Name) (searchImageInRegistry cl r term registry options) =
            Inr (map (\<lambda>h. if registryIndex registry = ''docker.io'' \<and> CHR ''/'' \<notin> set (hit_Name h)
                            then ''docker.io/library/'' @ hit_Name h
                            else registry @ ''/'' @ hit_Name h)
                  (filter (\<lambda>h. matchesAutomatedFilter (Filter options) h
                               \<and> matchesOfficialFilter (Filter options) h
                               \<and> matchesStarFilter (Filter options) h)
                     (take (nat (resultsLimit options results)) results))))"
proof -
  have n: "Name (searchResultParams options registry (registryIndex registry) h) =
     (if registryIndex registry = ''docker.io'' \<and> CHR ''/'' \<notin> set (hit_Name h)
      then ''docker.io/library/'' @ hit_Name h
      else registry @ ''/'' @ hit_Name h)" for h
    by (simp add: searchResultParams_def strings_Contains_def Let_def)
  show ?thesis
  proof (intro conjI impI)
    show "Name (searchResultParams options registry (registryIndex registry) result) =
     (if registryIndex registry = ''docker.io'' \<and> CHR ''/'' \<notin> set (hit_Name result)
      then ''docker.io/library/'' @ hit_Name result
      else registry @ ''/'' @ hit_Name result)"
      by (rule n)
  next
    assume a: "\<not> ListTags options
        \<and> SearchRegistry cl (querySystemContext r options) registry term (queryLimit options)
              = Inr results"
    then have "searchImageInRegistry cl r term registry options =
       Inr (map (searchResultParams options registry (registryIndex registry))
         (filter (\<lambda>h. matchesAutomatedFilter (Filter options) h
                    \<and> matchesOfficialFilter (Filter options) h
                    \<and> matchesStarFilter (Filter options) h)
          (take (nat (resultsLimit options results)) results)))"
      by (intro searchImageInRegistry_hits) simp_all
    then show "map_sum id (map Name) (searchImageInRegistry cl r term registry options) =
            Inr (map (\<lambda>h. if registryIndex registry = ''docker.io'' \<and> CHR ''/'' \<notin> set (hit_Name h)
                            then ''docker.io/library/'' @ hit_Name h
                            else registry @ ''/'' @ hit_Name h)
                  (filter (\<lambda>h. matchesAutomatedFilter (Filter options) h
                               \<and> matchesOfficialFilter (Filter options) h
                               \<and> matchesStarFilter (Filter options) h)
                     (take (nat (resultsLimit options results)) results)))"
      by (simp add: n comp_def)
  qed
qed

theorem docker_hub_name_witness:
  "map_sum id (map Name)
     (searchImageInRegistry sample_client sample_runtime ''a'' ''docker.io'' sample_options)
   = Inr [''docker.io/library/alpine'', ''docker.io/foo/bar'']"
  using docker_hub_name[of sample_options "''docker.io''" "hd sample_hits" sample_client
      sample_runtime "''a''" sample_hits]
  by (simp add: sample_options_def sample_client_def sample_hits_def sample_runtime_def
       querySystemContext_def queryLimit_def resultsLimit_def searchMaxQueries_def
       matchesAutomatedFilter_def matchesOfficialFilter_def matchesStarFilter_def
       registryIndex_docker_io)

subsection \<open>The limit policy\<close>

text \<open>
  For a limit option that is not negative, both loops retain the first 25 items when
  the option is 0 and the first \<open>Limit\<close> items otherwise, or all of them when there
  are fewer.
\<close>

lemma limit_policy_nonnegative:
  "0 \<le> Limit options \<Longrightarrow>
     nat (resultsLimit options results) =
       (if Limit options > 0 then min (nat (Limit options)) (length results)
        else min 25 (length results))
   \<and> nat (tagsLimit options tags) =
       (if Limit options > 0 then min (nat (Limit options)) (length tags)
        else min 25 (length tags))"
  by (auto simp: resultsLimit_def tagsLimit_def searchMaxQueries_def Let_def)

text \<open>
  C3. The field \<open>Limit\<close> is documented as overriding the default only when it is
  greater than 0, and the limit handed to the client (line 136) tests \<open>> 0\<close>; the two
  loops test \<open>!= 0\<close> (lines 170 and 231). With \<open>Limit = -1\<close> the sample registry's two
  hits, and the three tags of its image, are all dropped, where the default of 25 would
  retain them all, as it does for \<open>Limit = 0\<close>.
\<close>

theorem negative_limit_retains_nothing:
  "searchImageInRegistry sample_client sample_runtime ''a'' ''docker.io''
     (sample_options\<lparr>Limit := - 1\<rparr>) = Inr []
   \<and> searchImageInRegistry sample_client sample_runtime ''alpine'' ''docker.io''
     (sample_options\<lparr>Limit := - 1, ListTags := True\<rparr>) = Inr []
   \<and> searchImageInRegistry sample_client sample_runtime ''a'' ''docker.io''
     sample_options = Inr (map (searchResultParams sample_options ''docker.io'' ''docker.io'') sample_hits)"
  by (simp add: searchImageInRegistry_def searchRepositoryTags_def sample_options_def
       sample_client_def sample_hits_def sample_runtime_def querySystemContext_def
       queryLimit_def resultsLimit_def tagsLimit_def searchMaxQueries_def
       docker_Transport_Name_def registryIndex_docker_io
       matchesAutomatedFilter_def matchesOfficialFilter_def matchesStarFilter_def)

subsection \<open>Tag-listing mode\<close>

text \<open>
  C9. With \<open>ListTags\<close> the per-registry search is \<^verbatim>\<open>searchRepositoryTags\<close>. A
  reference that parses to a transport other than docker is refused with the error
  "reference %q must be a docker reference"; when the plain name does not parse, the
  name prefixed with \<open>docker://\<close> is parsed, and its failure gives that same error; a
  failure to get the tags gives "error getting repository tags: %v" around the client's
  error; otherwise there is one result per retained tag, with the name of the reference
  and the tag, and every other field empty.
\<close>

theorem tag_listing:
  "(ListTags options \<longrightarrow>
      searchImageInRegistry cl r term registry options =
        searchRepositoryTags cl (querySystemContext r options) registry term options)
   \<and> (\<forall>ref. ParseImageName cl (registry @ ''/'' @ term) = Inr ref
             \<and> Transport_Name ref \<noteq> ''docker''
        \<longrightarrow> searchRepositoryTags cl sys registry term options =
              Inl (Errorf ''reference %q must be a docker reference'' [Quoted term]))
   \<and> (\<forall>e e'. ParseImageName cl (registry @ ''/'' @ term) = Inl e
             \<and> ParseImageName cl (''docker://'' @ registry @ ''/'' @ term) = Inl e'
        \<longrightarrow> searchRepositoryTags cl sys registry term options =
              Inl (Errorf ''reference %q must be a docker reference'' [Quoted term]))
   \<and> (\<forall>ref. (ParseImageName cl (registry @ ''/'' @ term) = Inr ref
               \<and> Transport_Name ref = ''docker'')
            \<or> (\<exists>e. ParseImageName cl (registry @ ''/'' @ term) = Inl e
                   \<and> ParseImageName cl (''docker://'' @ registry @ ''/'' @ term) = Inr ref)
        \<longrightarrow> (\<forall>e. GetRepositoryTags cl sys ref = Inl e
                \<longrightarrow> searchRepositoryTags cl sys registry term options =
                      Inl (Errorf ''error getting repository tags: %v'' [Verb e]))
            \<and> (\<forall>tags. GetRepositoryTags cl sys ref = Inr tags
                \<longrightarrow> searchRepositoryTags cl sys registry term options =
                      Inr (map (\<lambda>t. \<lparr>Index = [], Name = DockerReference_Name ref,
                                       Description = [], Stars = 0, Official = [],
                                       Automated = [], Tag = t\<rparr>)
                             (take (nat (tagsLimit options tags)) tags))))"
proof -
  have wrap: "ListTags options \<longrightarrow>
      searchImageInRegistry cl r term registry options =
        searchRepositoryTags cl (querySystemContext r options) registry term options"
    by (simp add: searchImageInRegistry_def split: sum.splits)
  have other: "\<forall>ref. ParseImageName cl (registry @ ''/'' @ term) = Inr ref
             \<and> Transport_Name ref \<noteq> ''docker''
        \<longrightarrow> searchRepositoryTags cl sys registry term options =
              Inl (Errorf ''reference %q must be a docker reference'' [Quoted term])"
    by (simp add: searchRepositoryTags_def docker_Transport_Name_def)
  have both: "\<forall>e e'. ParseImageName cl (registry @ ''/'' @ term) = Inl e
             \<and> ParseImageName cl (''docker://'' @ registry @ ''/'' @ term) = Inl e'
        \<longrightarrow> searchRepositoryTags cl sys registry term options =
              Inl (Errorf ''reference %q must be a docker reference'' [Quoted term])"
    by (simp add: searchRepositoryTags_def)
  have tags: "\<forall>ref. (ParseImageName cl (registry @ ''/'' @ term) = Inr ref
               \<and> Transport_Name ref = ''docker'')
            \<or> (\<exists>e. ParseImageName cl (registry @ ''/'' @ term) = Inl e
                   \<and> ParseImageName cl (''docker://'' @ registry @ ''/'' @ term) = Inr ref)
        \<longrightarrow> (\<forall>e. GetRepositoryTags cl sys ref = Inl e
                \<longrightarrow> searchRepositoryTags cl sys registry term options =
                      Inl (Errorf ''error getting repository tags: %v'' [Verb e]))
            \<and> (\<forall>tags. GetRepositoryTags cl sys ref = Inr tags
                \<longrightarrow> searchRepositoryTags cl sys registry term options =
                      Inr (map (\<lambda>t. \<lparr>Index = [], Name = DockerReference_Name ref,
                                       Description = [], Stars = 0, Official = [],
                                       Automated = [], Tag = t\<rparr>)
                             (take (nat (tagsLimit options tags)) tags)))"
    by (auto simp: searchRepositoryTags_def docker_Transport_Name_def
          tagsLoop_eq[OF tagsLimit_le] simp del: tagsLoop.simps)
  from wrap other both tags show ?thesis by blast
qed


theorem tag_listing_witness:
  "searchRepositoryTags sample_client (systemContext sample_runtime) ''oci:'' ''tmp'' sample_options
     = Inl (Errorf ''reference %q must be a docker reference'' [Quoted ''tmp''])
   \<and> searchRepositoryTags sample_client (systemContext sample_runtime) ''docker.io'' ''al pine'' sample_options
     = Inl (Errorf ''reference %q must be a docker reference'' [Quoted ''al pine''])
   \<and> searchRepositoryTags sample_client (systemContext sample_runtime) ''quay.io'' ''alpine'' sample_options
     = Inl (Errorf ''error getting repository tags: %v'' [Verb ''unauthorized''])
   \<and> searchImageInRegistry sample_client sample_runtime ''alpine'' ''docker.io''
       (sample_options\<lparr>Limit := 2, ListTags := True\<rparr>)
     = Inr [\<lparr>Index = [], Name = ''docker.io/alpine'', Description = [], Stars = 0,
             Official = [], Automated = [], Tag = ''3.18''\<rparr>,
            \<lparr>Index = [], Name = ''docker.io/alpine'', Description = [], Stars = 0,
             Official = [], Automated = [], Tag = ''3.19''\<rparr>]"
proof -
  let ?sys = "systemContext sample_runtime"
  have a: "searchRepositoryTags sample_client ?sys ''oci:'' ''tmp'' sample_options
     = Inl (Errorf ''reference %q must be a docker reference'' [Quoted ''tmp''])"
    using tag_listing[of sample_options sample_client sample_runtime "''tmp''" "''oci:''" ?sys]
    by (simp add: sample_client_def)
  have b: "searchRepositoryTags sample_client ?sys ''docker.io'' ''al pine'' sample_options
     = Inl (Errorf ''reference %q must be a docker reference'' [Quoted ''al pine''])"
    using tag_listing[of sample_options sample_client sample_runtime "''al pine''" "''docker.io''" ?sys]
    by (simp add: sample_client_def)
  have c: "searchRepositoryTags sample_client ?sys ''quay.io'' ''alpine'' sample_options
     = Inl (Errorf ''error getting repository tags: %v'' [Verb ''unauthorized''])"
    using tag_listing[of sample_options sample_client sample_runtime "''alpine''" "''quay.io''" ?sys]
    by (simp add: sample_client_def)
  let ?o = "sample_options\<lparr>Limit := 2, ListTags := True\<rparr>"
  have d: "searchImageInRegistry sample_client sample_runtime ''alpine'' ''docker.io'' ?o
     = Inr [\<lparr>Index = [], Name = ''docker.io/alpine'', Description = [], Stars = 0,
             Official = [], Automated = [], Tag = ''3.18''\<rparr>,
            \<lparr>Index = [], Name = ''docker.io/alpine'', Description = [], Stars = 0,
             Official = [], Automated = [], Tag = ''3.19''\<rparr>]"
    using tag_listing[of ?o sample_client sample_runtime "''alpine''" "''docker.io''"
        "querySystemContext sample_runtime ?o"]
    by (simp add: sample_client_def sample_options_def tagsLimit_def searchMaxQueries_def)
  from a b c d show ?thesis by blast
qed

subsection \<open>The dispatcher\<close>

lemma dispatch_inv_init: "dispatch_inv task n (init n)"
  by (simp add: dispatch_inv_def init_def)

lemma length_removeAll_distinct:
  "distinct xs \<Longrightarrow> x \<in> set xs \<Longrightarrow> length (removeAll x xs) = length xs - 1"
  by (simp add: distinct_remove1_removeAll[symmetric] length_remove1)

lemma dispatch_inv_step:
  assumes "dispatch_inv task n s" and "step task n s ev = Some s'"
  shows "dispatch_inv task n s'"
proof (cases ev)
  case Acquire_ok
  with assms show ?thesis
    by (auto simp: dispatch_inv_def less_Suc_eq split: if_splits)
next
  case (Acquire_err e)
  with assms show ?thesis
    by (auto simp: dispatch_inv_def split: if_splits)
next
  case (Complete index)
  with assms have mem: "index \<in> set (running s)"
    and s': "s' = s\<lparr>slots := (slots s)[index := task index], wg := wg s - 1,
                   sem_cur := sem_cur s - 1, running := removeAll index (running s)\<rparr>"
    by (auto split: if_splits)
  from assms(1) have d: "distinct (running s)" and len: "sem_cur s = length (running s)"
    and sub: "set (running s) \<subseteq> {..<loop_i s}" and le: "loop_i s \<le> n"
    and w: "wg s + loop_i s = n + length (running s)"
    by (simp_all add: dispatch_inv_def)
  from mem have pos: "0 < length (running s)" by (cases "running s") auto
  from mem sub le have idx: "index < loop_i s" "index < n" by auto
  have l: "length (removeAll index (running s)) = length (running s) - 1"
    using d mem by (rule length_removeAll_distinct)
  from pos obtain k where k: "length (running s) = Suc k"
    by (cases "length (running s)") auto
  from w k le obtain j where j: "wg s = Suc j" by (cases "wg s") auto
  show ?thesis
    using assms(1) l idx mem k j
    unfolding dispatch_inv_def s'
    by (auto simp: nth_list_update distinct_removeAll)
next
  case Wait_done
  with assms show ?thesis
    by (auto simp: dispatch_inv_def split: if_splits)
qed

lemma dispatch_inv_run:
  "dispatch_inv task n s \<Longrightarrow> run task n s sched = Some s' \<Longrightarrow> dispatch_inv task n s'"
proof (induction sched arbitrary: s)
  case Nil
  then show ?case by simp
next
  case (Cons ev sched)
  then show ?case
    by (auto split: option.splits dest: dispatch_inv_step)
qed

lemma run_append:
  "run task n s (xs @ ys) = (case run task n s xs of None \<Rightarrow> None | Some s' \<Rightarrow> run task n s' ys)"
  by (induction xs arbitrary: s) (auto split: option.splits)

lemma run_take:
  "run task n s sched = Some s' \<Longrightarrow> \<exists>s''. run task n s (take k sched) = Some s''"
  using run_append[of task n s "take k sched" "drop k sched"]
  by (auto split: option.splits)

lemma dispatch_inv_slots:
  assumes "dispatch_inv task n s" and "loop_i s = n" and "wg s = 0"
  shows "slots s = map task [0..<n]"
proof -
  from assms have r: "running s = []" by (simp add: dispatch_inv_def)
  show ?thesis
    using assms(1,2) r by (intro nth_equalityI) (auto simp: dispatch_inv_def)
qed

lemma step_returned:
  "step task n s ev = Some s' \<Longrightarrow> returned s = Some x \<Longrightarrow>
     returned s' = Some x \<and> loop_i s' = loop_i s \<and> set (running s') \<subseteq> set (running s)"
  by (cases ev) (auto split: if_splits)

lemma run_returned:
  "run task n s sched = Some s' \<Longrightarrow> returned s = Some x \<Longrightarrow>
     returned s' = Some x \<and> loop_i s' = loop_i s \<and> set (running s') \<subseteq> set (running s)"
proof (induction sched arbitrary: s)
  case Nil
  then show ?case by simp
next
  case (Cons ev sched)
  from Cons.prems obtain s1 where s1: "step task n s ev = Some s1" and r: "run task n s1 sched = Some s'"
    by (auto split: option.splits)
  from step_returned[OF s1 Cons.prems(2)] Cons.IH[OF r] show ?case by auto
qed

lemma run_returns:
  assumes "dispatch_inv task n s" and "run task n s sched = Some s'"
    and "returned s = None" and "returned s' = Some x"
  shows "(Wait_done \<in> set sched \<and> x = aggregate (map task [0..<n]))
       \<or> (\<exists>e. Acquire_err e \<in> set sched \<and> x = ([], Some (Plain (External e))))"
  using assms
proof (induction sched arbitrary: s)
  case Nil
  then show ?case by simp
next
  case (Cons ev sched)
  from Cons.prems obtain s1 where s1: "step task n s ev = Some s1" and r: "run task n s1 sched = Some s'"
    by (auto split: option.splits)
  have inv1: "dispatch_inv task n s1" using Cons.prems(1) s1 by (rule dispatch_inv_step)
  show ?case
  proof (cases "returned s1")
    case None
    from Cons.IH[OF inv1 r None Cons.prems(4)] show ?thesis by auto
  next
    case (Some y)
    with run_returned[OF r] Cons.prems(4) have xy: "x = y" by auto
    show ?thesis
    proof (cases ev)
      case Acquire_ok
      with s1 Some Cons.prems(3) show ?thesis by (auto split: if_splits)
    next
      case (Acquire_err e)
      with s1 Some xy show ?thesis by (auto split: if_splits)
    next
      case (Complete index)
      with s1 Some Cons.prems(3) show ?thesis by (auto split: if_splits)
    next
      case Wait_done
      with s1 Some xy have "loop_i s = n" "wg s = 0" "y = aggregate (slots s)"
        by (auto split: if_splits)
      with dispatch_inv_slots[OF Cons.prems(1)] xy Wait_done show ?thesis by simp
    qed
  qed
qed

lemma aggregateLoop_eq:
  "aggregateLoop ds results multiErr =
     (results @ concat (map (\<lambda>d. case err d of None \<Rightarrow> data d | Some e \<Rightarrow> []) ds),
      if concat (map (\<lambda>d. case err d of None \<Rightarrow> [] | Some e \<Rightarrow> [e]) ds) = [] then multiErr
      else Some ((case multiErr of None \<Rightarrow> [] | Some es \<Rightarrow> es)
               @ concat (map (\<lambda>d. case err d of None \<Rightarrow> [] | Some e \<Rightarrow> [e]) ds)))"
proof (induction ds arbitrary: results multiErr)
  case Nil
  then show ?case by simp
next
  case (Cons d ds)
  show ?case
  proof (cases "err d")
    case None
    then show ?thesis by (simp add: Cons.IH)
  next
    case (Some e)
    then show ?thesis
      by (simp add: Cons.IH multierror_Append_def split: option.splits)
  qed
qed

lemma map_searchTask:
  "map (searchTask cl r term registries options) [0..<length registries] =
     map (\<lambda>registry.
       case searchImageInRegistry cl r term registry options of
         Inl e \<Rightarrow> \<lparr>data = [], err = Some e\<rparr>
       | Inr searchOutput \<Rightarrow> \<lparr>data = searchOutput, err = None\<rparr>) registries"
  by (rule nth_equalityI) (simp_all add: searchTask_def)

lemma aggregate_registries:
  "aggregate (map (searchTask cl r term registries options) [0..<length registries]) =
     (registryResults cl r term options registries,
      if registryResults cl r term options registries = []
         \<and> registryErrors cl r term options registries \<noteq> []
      then Some (MultiError (registryErrors cl r term options registries)) else None)"
proof -
  let ?slot = "\<lambda>registry.
       case searchImageInRegistry cl r term registry options of
         Inl e \<Rightarrow> \<lparr>data = [], err = Some e\<rparr>
       | Inr searchOutput \<Rightarrow> \<lparr>data = searchOutput, err = None\<rparr>"
  have a: "concat (map (\<lambda>d. case err d of None \<Rightarrow> data d | Some e \<Rightarrow> []) (map ?slot registries))
      = registryResults cl r term options registries"
    unfolding registryResults_def map_map comp_def
    by (rule arg_cong[where f = concat], rule map_cong) (auto split: sum.splits)
  have b: "concat (map (\<lambda>d. case err d of None \<Rightarrow> [] | Some e \<Rightarrow> [e]) (map ?slot registries))
      = registryErrors cl r term options registries"
    unfolding registryErrors_def map_map comp_def
    by (rule arg_cong[where f = concat], rule map_cong) (auto split: sum.splits)
  show ?thesis
    unfolding aggregate_def map_searchTask aggregateLoop_eq a b
    by simp
qed

lemma Search_joined:
  assumes "UnqualifiedSearchRegistries cl (systemContext r) = Inr configured"
    and "Search cl r term options sched = Some x"
    and "\<forall>e. Acquire_err e \<notin> set sched"
  shows "x = aggregate (map (searchTask cl r (snd (splitTerm configured term))
                 (fst (splitTerm configured term)) options)
               [0..<length (fst (splitTerm configured term))])"
proof -
  let ?regs = "fst (splitTerm configured term)" and ?t = "snd (splitTerm configured term)"
  from assms(1,2) obtain s where
    run: "run (searchTask cl r ?t ?regs options) (length ?regs) (init (length ?regs)) sched = Some s"
    and ret: "returned s = Some x"
    by (auto simp: Search_def dispatch_def split: prod.splits option.splits)
  have "returned (init (length ?regs) :: 'a search_state) = None" by (simp add: init_def)
  from run_returns[OF dispatch_inv_init run this ret] assms(3) show ?thesis by auto
qed

text \<open>
  C2. Under every schedule on which no acquisition fails, whatever the order in which
  the tasks complete, the results \<^verbatim>\<open>Search\<close> returns are the results of the successful
  registries concatenated in the order of the registry list; nothing sorts them. At every
  moment the slot of a position holds the outcome of the task of that position once it
  has completed, and the zero value before.
\<close>

theorem result_order:
  "(UnqualifiedSearchRegistries cl (systemContext r) = Inr configured
    \<and> Search cl r term options sched = Some (results, e)
    \<and> (\<forall>x. Acquire_err x \<notin> set sched)
    \<longrightarrow> results = registryResults cl r (snd (splitTerm configured term)) options
                    (fst (splitTerm configured term)))
   \<and> (dispatch cl r registries term' options sched' = Some s \<and> index < length registries
    \<longrightarrow> slots s ! index =
          (if index < loop_i s \<and> index \<notin> set (running s)
           then searchTask cl r term' registries options index
           else \<lparr>data = [], err = None\<rparr>))"
proof (intro conjI impI)
  assume a: "UnqualifiedSearchRegistries cl (systemContext r) = Inr configured
   \<and> Search cl r term options sched = Some (results, e)
   \<and> (\<forall>x. Acquire_err x \<notin> set sched)"
  then have "(results, e) = aggregate (map (searchTask cl r (snd (splitTerm configured term))
                 (fst (splitTerm configured term)) options)
               [0..<length (fst (splitTerm configured term))])"
    by (intro Search_joined) auto
  then show "results = registryResults cl r (snd (splitTerm configured term)) options
                   (fst (splitTerm configured term))"
    by (simp add: aggregate_registries)
next
  assume b: "dispatch cl r registries term' options sched' = Some s \<and> index < length registries"
  then have d: "run (searchTask cl r term' registries options) (length registries)
      (init (length registries)) sched' = Some s"
    by (simp add: dispatch_def)
  have "dispatch_inv (searchTask cl r term' registries options) (length registries) s"
    by (rule dispatch_inv_run[OF dispatch_inv_init d])
  with b show "slots s ! index =
          (if index < loop_i s \<and> index \<notin> set (running s)
           then searchTask cl r term' registries options index
           else \<lparr>data = [], err = None\<rparr>)"
    by (simp add: dispatch_inv_def)
qed

theorem result_order_witness:
  "Search sample_client sample_runtime ''registry.fedoraproject.org/fedora'' sample_options
     [Acquire_ok, Acquire_ok, Acquire_ok, Complete 2, Complete 1, Complete 0, Wait_done]
   = Some ([\<lparr>Index = ''docker.io'', Name = ''docker.io/library/alpine'',
              Description = ''A minimal Docker image'', Stars = 9000, Official = ''[OK]'',
              Automated = [], Tag = []\<rparr>,
            \<lparr>Index = ''docker.io'', Name = ''docker.io/foo/bar'',
              Description = ''An image of foo'', Stars = 2, Official = [],
              Automated = ''[OK]'', Tag = []\<rparr>,
            \<lparr>Index = ''fedoraproject.org'', Name = ''registry.fedoraproject.org/fedora'',
              Description = ''Fedora base image'', Stars = 40, Official = [],
              Automated = [], Tag = []\<rparr>], None)
   \<and> Search sample_client sample_runtime ''registry.fedoraproject.org/fedora'' sample_options
     [Acquire_ok, Complete 0, Acquire_ok, Complete 1, Acquire_ok, Complete 2, Wait_done]
   = Search sample_client sample_runtime ''registry.fedoraproject.org/fedora'' sample_options
     [Acquire_ok, Acquire_ok, Acquire_ok, Complete 2, Complete 1, Complete 0, Wait_done]
   \<and> registryResults sample_client sample_runtime ''fedora'' sample_options
       [''docker.io'', ''quay.io'', ''registry.fedoraproject.org'']
     = [\<lparr>Index = ''docker.io'', Name = ''docker.io/library/alpine'',
              Description = ''A minimal Docker image'', Stars = 9000, Official = ''[OK]'',
              Automated = [], Tag = []\<rparr>,
            \<lparr>Index = ''docker.io'', Name = ''docker.io/foo/bar'',
              Description = ''An image of foo'', Stars = 2, Official = [],
              Automated = ''[OK]'', Tag = []\<rparr>,
            \<lparr>Index = ''fedoraproject.org'', Name = ''registry.fedoraproject.org/fedora'',
              Description = ''Fedora base image'', Stars = 40, Official = [],
              Automated = [], Tag = []\<rparr>]"
proof -
  let ?R = "[\<lparr>Index = ''docker.io'', Name = ''docker.io/library/alpine'',
              Description = ''A minimal Docker image'', Stars = 9000, Official = ''[OK]'',
              Automated = [], Tag = []\<rparr>,
            \<lparr>Index = ''docker.io'', Name = ''docker.io/foo/bar'',
              Description = ''An image of foo'', Stars = 2, Official = [],
              Automated = ''[OK]'', Tag = []\<rparr>,
            \<lparr>Index = ''fedoraproject.org'', Name = ''registry.fedoraproject.org/fedora'',
              Description = ''Fedora base image'', Stars = 40, Official = [],
              Automated = [], Tag = []\<rparr>]"
  let ?T = "''registry.fedoraproject.org/fedora''"
  have u: "UnqualifiedSearchRegistries sample_client (systemContext sample_runtime)
      = Inr [''docker.io'', ''quay.io'']"
    by (simp add: sample_client_def)
  have sp: "splitTerm [''docker.io'', ''quay.io''] ?T
      = ([''docker.io'', ''quay.io'', ''registry.fedoraproject.org''], ''fedora'')"
    by code_simp
  have a: "Search sample_client sample_runtime ?T sample_options
     [Acquire_ok, Acquire_ok, Acquire_ok, Complete 2, Complete 1, Complete 0, Wait_done]
     = Some (?R, None)"
    by code_simp
  have b: "Search sample_client sample_runtime ?T sample_options
     [Acquire_ok, Complete 0, Acquire_ok, Complete 1, Acquire_ok, Complete 2, Wait_done]
     = Some (?R, None)"
    by code_simp
  have n: "\<forall>x. Acquire_err x \<notin> set
      [Acquire_ok, Acquire_ok, Acquire_ok, Complete 2, Complete 1, Complete 0, Wait_done]"
    by simp
  have c: "?R = registryResults sample_client sample_runtime (snd (splitTerm [''docker.io'', ''quay.io''] ?T))
       sample_options (fst (splitTerm [''docker.io'', ''quay.io''] ?T))"
    using result_order[of sample_client sample_runtime "[''docker.io'', ''quay.io'']" ?T
        sample_options
        "[Acquire_ok, Acquire_ok, Acquire_ok, Complete 2, Complete 1, Complete 0, Wait_done]"
        ?R None, THEN conjunct1] u a n
    by blast
  have d: "registryResults sample_client sample_runtime ''fedora'' sample_options
       [''docker.io'', ''quay.io'', ''registry.fedoraproject.org''] = ?R"
    using c unfolding sp fst_conv snd_conv by (rule sym)
  from a b d show ?thesis by (simp only: simp_thms)
qed

text \<open>
  C1 (amended). When the registry list resolves and no acquisition of a permit fails,
  \<^verbatim>\<open>Search\<close> returns the concatenated results; its error is not nil exactly when
  these are empty and some registry failed, and then it is the multi-error of the failed
  registries' errors, in order; results that are not empty come with a nil error, and so
  does an empty run without a failure.
\<close>

theorem search_error_policy:
  "UnqualifiedSearchRegistries cl (systemContext r) = Inr configured
   \<and> Search cl r term options sched = Some (results, e)
   \<and> (\<forall>x. Acquire_err x \<notin> set sched)
   \<longrightarrow> (let registries = fst (splitTerm configured term);
            term' = snd (splitTerm configured term);
            successes = registryResults cl r term' options registries;
            failures = registryErrors cl r term' options registries
        in results = successes
           \<and> ((e \<noteq> None) = (results = [] \<and> failures \<noteq> []))
           \<and> (results = [] \<and> failures \<noteq> [] \<longrightarrow> e = Some (MultiError failures))
           \<and> (results \<noteq> [] \<longrightarrow> e = None)
           \<and> (results = [] \<and> failures = [] \<longrightarrow> e = None))"
proof
  assume a: "UnqualifiedSearchRegistries cl (systemContext r) = Inr configured
   \<and> Search cl r term options sched = Some (results, e)
   \<and> (\<forall>x. Acquire_err x \<notin> set sched)"
  then have "(results, e) = aggregate (map (searchTask cl r (snd (splitTerm configured term))
                 (fst (splitTerm configured term)) options)
               [0..<length (fst (splitTerm configured term))])"
    by (intro Search_joined) auto
  then show "(let registries = fst (splitTerm configured term);
            term' = snd (splitTerm configured term);
            successes = registryResults cl r term' options registries;
            failures = registryErrors cl r term' options registries
        in results = successes
           \<and> ((e \<noteq> None) = (results = [] \<and> failures \<noteq> []))
           \<and> (results = [] \<and> failures \<noteq> [] \<longrightarrow> e = Some (MultiError failures))
           \<and> (results \<noteq> [] \<longrightarrow> e = None)
           \<and> (results = [] \<and> failures = [] \<longrightarrow> e = None))"
    by (simp add: aggregate_registries Let_def)
qed

theorem search_error_policy_witness:
  "Search sample_client sample_runtime ''alp'' sample_options
     [Acquire_ok, Acquire_ok, Complete 1, Complete 0, Wait_done]
   = Some ([\<lparr>Index = ''docker.io'', Name = ''docker.io/library/alpine'',
              Description = ''A minimal Docker image'', Stars = 9000, Official = ''[OK]'',
              Automated = [], Tag = []\<rparr>,
            \<lparr>Index = ''docker.io'', Name = ''docker.io/foo/bar'',
              Description = ''An image of foo'', Stars = 2, Official = [],
              Automated = ''[OK]'', Tag = []\<rparr>], None)
   \<and> registryErrors sample_client sample_runtime ''alp'' sample_options [''docker.io'', ''quay.io'']
     = [External ''connection refused'']
   \<and> Search sample_client sample_runtime ''alp''
       (sample_options\<lparr>Filter := \<lparr>Filter_Stars = 100000,
          Filter_IsAutomated = OptionalBoolUndefined, Filter_IsOfficial = OptionalBoolUndefined\<rparr>\<rparr>)
       [Acquire_ok, Acquire_ok, Complete 1, Complete 0, Wait_done]
   = Some ([], Some (MultiError [External ''connection refused'']))"
proof -
  let ?R = "[\<lparr>Index = ''docker.io'', Name = ''docker.io/library/alpine'',
              Description = ''A minimal Docker image'', Stars = 9000, Official = ''[OK]'',
              Automated = [], Tag = []\<rparr>,
            \<lparr>Index = ''docker.io'', Name = ''docker.io/foo/bar'',
              Description = ''An image of foo'', Stars = 2, Official = [],
              Automated = ''[OK]'', Tag = []\<rparr>]"
  let ?sched = "[Acquire_ok, Acquire_ok, Complete 1, Complete 0, Wait_done]"
  let ?strict = "sample_options\<lparr>Filter := \<lparr>Filter_Stars = 100000,
          Filter_IsAutomated = OptionalBoolUndefined, Filter_IsOfficial = OptionalBoolUndefined\<rparr>\<rparr>"
  have u: "UnqualifiedSearchRegistries sample_client (systemContext sample_runtime)
      = Inr [''docker.io'', ''quay.io'']"
    by (simp add: sample_client_def)
  have sp: "splitTerm [''docker.io'', ''quay.io''] ''alp'' = ([''docker.io'', ''quay.io''], ''alp'')"
    by code_simp
  have n: "\<forall>x. Acquire_err x \<notin> set ?sched" by simp
  have errs: "registryErrors sample_client sample_runtime ''alp'' sample_options
      [''docker.io'', ''quay.io''] = [External ''connection refused'']"
    by code_simp
  have errs': "registryErrors sample_client sample_runtime ''alp'' ?strict
      [''docker.io'', ''quay.io''] = [External ''connection refused'']"
    by code_simp
  have "map_option fst (Search sample_client sample_runtime ''alp'' sample_options ?sched)
      = Some ?R"
    by code_simp
  then obtain e where a: "Search sample_client sample_runtime ''alp'' sample_options ?sched
      = Some (?R, e)"
    by (cases "Search sample_client sample_runtime ''alp'' sample_options ?sched") auto
  have "map_option fst (Search sample_client sample_runtime ''alp'' ?strict ?sched) = Some []"
    by code_simp
  then obtain e' where b: "Search sample_client sample_runtime ''alp'' ?strict ?sched
      = Some ([], e')"
    by (cases "Search sample_client sample_runtime ''alp'' ?strict ?sched") auto
  from search_error_policy[of sample_client sample_runtime "[''docker.io'', ''quay.io'']" "''alp''"
      sample_options ?sched ?R e] u a n
  have "e = None"
    by (simp add: Let_def)
  moreover
  from search_error_policy[of sample_client sample_runtime "[''docker.io'', ''quay.io'']" "''alp''"
      ?strict ?sched "[]" e'] u b n
  have "e' = Some (MultiError [External ''connection refused''])"
    unfolding sp fst_conv snd_conv Let_def errs' by simp
  ultimately show ?thesis using a b errs by simp
qed

text \<open>
  The claim as stated fails on the two early returns: with the six permits held and the
  context cancelled, \<^verbatim>\<open>Search\<close> returns the plain error of the context although the
  query of no registry fails; and when the registry list cannot be resolved it returns
  that error before any query.
\<close>

theorem search_error_policy_counterexample:
  "Search busy_client sample_runtime ''a'' sample_options
     [Acquire_ok, Acquire_ok, Acquire_ok, Acquire_ok, Acquire_ok, Acquire_ok,
      Acquire_err ''context canceled'']
   = Some ([], Some (Plain (External ''context canceled'')))
   \<and> filter (queryFails busy_client sample_runtime ''a'' sample_options) eight_registries = []
   \<and> Search unconfigured_client sample_runtime ''a'' sample_options []
     = Some ([], Some (Plain (External ''cannot read registries.conf'')))"
  by code_simp

text \<open>
  A schedule on which \<^verbatim>\<open>Search\<close> returns always exists: the sequential one.
\<close>

lemma run_sequential_prefix:
  "k \<le> n \<Longrightarrow>
   run task n (init n) (concat (map (\<lambda>i. [Acquire_ok, Complete i]) [0..<k])) =
     Some \<lparr>loop_i = k, sem_cur = 0, wg = n - k, running = [],
           slots = map task [0..<k] @ replicate (n - k) \<lparr>data = [], err = None\<rparr>,
           returned = None\<rparr>"
proof (induction k)
  case 0
  then show ?case by (simp add: init_def)
next
  case (Suc k)
  then have k: "k < n" by simp
  then have rep: "replicate (n - k) \<lparr>data = [], err = None :: 'a error option\<rparr>
      = \<lparr>data = [], err = None\<rparr> # replicate (n - Suc k) \<lparr>data = [], err = None\<rparr>"
    by (cases "n - k") (auto simp: Suc_diff_Suc)
  have upd: "(map task [0..<k] @ replicate (n - k) \<lparr>data = [], err = None\<rparr>)[k := task k]
      = map task [0..<Suc k] @ replicate (n - Suc k) \<lparr>data = [], err = None\<rparr>"
    by (simp add: rep list_update_append)
  from Suc k show ?case
    by (simp add: run_append searchMaxParallel_def upd del: replicate_Suc)
qed

lemma run_sequential:
  "\<exists>s. run task n (init n) (sequential n) = Some s
       \<and> returned s = Some (aggregate (map task [0..<n]))"
  using run_sequential_prefix[of n n task]
  by (simp add: sequential_def run_append)

lemma Search_sequential:
  "UnqualifiedSearchRegistries cl (systemContext r) = Inr configured \<Longrightarrow>
   Search cl r term options (sequential (length (fst (splitTerm configured term)))) =
     Some (aggregate (map (searchTask cl r (snd (splitTerm configured term))
                 (fst (splitTerm configured term)) options)
               [0..<length (fst (splitTerm configured term))]))"
  using run_sequential[of "searchTask cl r (snd (splitTerm configured term))
                 (fst (splitTerm configured term)) options" "length (fst (splitTerm configured term))"]
  by (auto simp: Search_def dispatch_def split: prod.splits)

lemma dispatch_inv_dispatch:
  "dispatch cl r registries term options sched = Some s \<Longrightarrow>
     dispatch_inv (searchTask cl r term registries options) (length registries) s"
  unfolding dispatch_def by (rule dispatch_inv_run[OF dispatch_inv_init])

text \<open>
  C10. At every moment of every run, for a registry list of any length, the goroutines
  in flight are as many as the permits held, and at most 6; with 6 in flight the loop
  cannot start another one.
\<close>

theorem bounded_parallelism:
  "dispatch cl r registries term options sched = Some s \<longrightarrow>
     (\<forall>k \<le> length sched. \<exists>s'.
        dispatch cl r registries term options (take k sched) = Some s'
        \<and> sem_cur s' = length (running s') \<and> length (running s') \<le> 6)
     \<and> (length (running s) = 6 \<longrightarrow>
          dispatch cl r registries term options (sched @ [Acquire_ok]) = None)"
proof
  assume d: "dispatch cl r registries term options sched = Some s"
  have "\<exists>s'. dispatch cl r registries term options (take k sched) = Some s'
        \<and> sem_cur s' = length (running s') \<and> length (running s') \<le> 6" for k
  proof -
    from d obtain s' where s': "dispatch cl r registries term options (take k sched) = Some s'"
      unfolding dispatch_def using run_take by blast
    from dispatch_inv_dispatch[OF s'] have "sem_cur s' = length (running s')"
      "length (running s') \<le> 6"
      by (simp_all add: dispatch_inv_def searchMaxParallel_def)
    with s' show ?thesis by blast
  qed
  moreover have "length (running s) = 6 \<longrightarrow>
          dispatch cl r registries term options (sched @ [Acquire_ok]) = None"
  proof
    assume six: "length (running s) = 6"
    from dispatch_inv_dispatch[OF d] six have "sem_cur s = 6" by (simp add: dispatch_inv_def)
    with d show "dispatch cl r registries term options (sched @ [Acquire_ok]) = None"
      by (simp add: dispatch_def run_append searchMaxParallel_def)
  qed
  ultimately show "(\<forall>k \<le> length sched. \<exists>s'.
        dispatch cl r registries term options (take k sched) = Some s'
        \<and> sem_cur s' = length (running s') \<and> length (running s') \<le> 6)
     \<and> (length (running s) = 6 \<longrightarrow>
          dispatch cl r registries term options (sched @ [Acquire_ok]) = None)"
    by blast
qed

theorem bounded_parallelism_witness:
  "map_option (length \<circ> running)
     (dispatch busy_client sample_runtime eight_registries ''a'' sample_options
        [Acquire_ok, Acquire_ok, Acquire_ok, Acquire_ok, Acquire_ok, Acquire_ok]) = Some 6
   \<and> dispatch busy_client sample_runtime eight_registries ''a'' sample_options
        ([Acquire_ok, Acquire_ok, Acquire_ok, Acquire_ok, Acquire_ok, Acquire_ok] @ [Acquire_ok])
      = None
   \<and> map_option (length \<circ> running)
     (dispatch busy_client sample_runtime eight_registries ''a'' sample_options
        [Acquire_ok, Acquire_ok, Acquire_ok, Acquire_ok, Acquire_ok, Acquire_ok, Complete 3,
         Acquire_ok]) = Some 6"
proof -
  let ?six = "[Acquire_ok, Acquire_ok, Acquire_ok, Acquire_ok, Acquire_ok, Acquire_ok]"
  have a: "map_option (length \<circ> running)
     (dispatch busy_client sample_runtime eight_registries ''a'' sample_options ?six) = Some 6"
    by code_simp
  then obtain s where d: "dispatch busy_client sample_runtime eight_registries ''a''
      sample_options ?six = Some s" and six: "length (running s) = 6"
    by (cases "dispatch busy_client sample_runtime eight_registries ''a'' sample_options ?six")
      auto
  from bounded_parallelism[of busy_client sample_runtime eight_registries "''a''" sample_options
      ?six s] d six
  have b: "dispatch busy_client sample_runtime eight_registries ''a'' sample_options
        (?six @ [Acquire_ok]) = None"
    by blast
  have c: "map_option (length \<circ> running)
     (dispatch busy_client sample_runtime eight_registries ''a'' sample_options
        [Acquire_ok, Acquire_ok, Acquire_ok, Acquire_ok, Acquire_ok, Acquire_ok, Complete 3,
         Acquire_ok]) = Some 6"
    by code_simp
  from a b c show ?thesis by blast
qed

text \<open>
  C8 (amended). When an acquisition fails with the error of the context, \<^verbatim>\<open>Search\<close>
  returns no results and that error, whatever the slots hold by then, and starts no
  further task: the loop variable stays, and the goroutines in flight only complete.
  Results win over the errors of other registries, a cancellation among them, only on
  a run where every acquisition succeeds.
\<close>

theorem acquire_cancellation:
  "(UnqualifiedSearchRegistries cl (systemContext r) = Inr configured
    \<and> dispatch cl r (fst (splitTerm configured term)) (snd (splitTerm configured term)) options
          (sched @ Acquire_err e # rest) = Some s'
    \<longrightarrow> Search cl r term options (sched @ Acquire_err e # rest)
          = Some ([], Some (Plain (External e)))
        \<and> (\<exists>s. dispatch cl r (fst (splitTerm configured term)) (snd (splitTerm configured term))
                  options sched = Some s
               \<and> returned s = None
               \<and> loop_i s' = loop_i s
               \<and> set (running s') \<subseteq> set (running s)))
   \<and> (UnqualifiedSearchRegistries cl (systemContext r) = Inr configured
    \<and> Search cl r term options joined = Some (results, e')
    \<and> (\<forall>x. Acquire_err x \<notin> set joined)
    \<and> registryResults cl r (snd (splitTerm configured term)) options
          (fst (splitTerm configured term)) \<noteq> []
    \<longrightarrow> results = registryResults cl r (snd (splitTerm configured term)) options
                    (fst (splitTerm configured term))
        \<and> e' = None)"
proof (intro conjI impI)
  let ?regs = "fst (splitTerm configured term)" and ?t = "snd (splitTerm configured term)"
  let ?task = "searchTask cl r ?t ?regs options" and ?n = "length ?regs"
  assume a: "UnqualifiedSearchRegistries cl (systemContext r) = Inr configured
   \<and> dispatch cl r ?regs ?t options (sched @ Acquire_err e # rest) = Some s'"
  then obtain s where s: "run ?task ?n (init ?n) sched = Some s"
    and r1: "run ?task ?n s (Acquire_err e # rest) = Some s'"
    by (auto simp: dispatch_def run_append split: option.splits)
  from r1 obtain s1 where st: "step ?task ?n s (Acquire_err e) = Some s1"
    and r2: "run ?task ?n s1 rest = Some s'"
    by (auto split: option.splits)
  from st have none: "returned s = None"
    and s1: "returned s1 = Some ([], Some (Plain (External e)))" "loop_i s1 = loop_i s"
      "running s1 = running s"
    by (auto split: if_splits)
  from run_returned[OF r2 s1(1)] s1 have fin: "returned s' = Some ([], Some (Plain (External e)))"
    "loop_i s' = loop_i s" "set (running s') \<subseteq> set (running s)"
    by auto
  from a fin(1) show "Search cl r term options (sched @ Acquire_err e # rest)
         = Some ([], Some (Plain (External e)))"
    by (auto simp: Search_def split: prod.splits)
  from s none fin show "\<exists>s. dispatch cl r ?regs ?t options sched = Some s
              \<and> returned s = None
              \<and> loop_i s' = loop_i s
              \<and> set (running s') \<subseteq> set (running s)"
    by (auto simp: dispatch_def)
next
  assume b: "UnqualifiedSearchRegistries cl (systemContext r) = Inr configured
    \<and> Search cl r term options joined = Some (results, e')
    \<and> (\<forall>x. Acquire_err x \<notin> set joined)
    \<and> registryResults cl r (snd (splitTerm configured term)) options
          (fst (splitTerm configured term)) \<noteq> []"
  then have "(results, e') = aggregate (map (searchTask cl r (snd (splitTerm configured term))
                 (fst (splitTerm configured term)) options)
               [0..<length (fst (splitTerm configured term))])"
    by (intro Search_joined) auto
  with b have c: "results = registryResults cl r (snd (splitTerm configured term)) options
                    (fst (splitTerm configured term))
        \<and> e' = None"
    by (simp add: aggregate_registries)
  from c show "results = registryResults cl r (snd (splitTerm configured term)) options
                    (fst (splitTerm configured term))"
    by simp
  from c show "e' = None"
    by simp
qed

theorem acquire_cancellation_witness:
  "Search busy_client sample_runtime ''a'' sample_options
     ([Acquire_ok, Acquire_ok, Acquire_ok, Acquire_ok, Acquire_ok, Acquire_ok, Complete 0,
       Acquire_ok] @ Acquire_err ''context canceled'' # [Complete 1, Complete 2])
   = Some ([], Some (Plain (External ''context canceled'')))
   \<and> map_option loop_i (dispatch busy_client sample_runtime eight_registries ''a'' sample_options
       ([Acquire_ok, Acquire_ok, Acquire_ok, Acquire_ok, Acquire_ok, Acquire_ok, Complete 0,
         Acquire_ok] @ Acquire_err ''context canceled'' # [Complete 1, Complete 2]))
     = Some 7"
proof -
  let ?before = "[Acquire_ok, Acquire_ok, Acquire_ok, Acquire_ok, Acquire_ok, Acquire_ok,
    Complete 0, Acquire_ok]"
  let ?sched = "?before @ Acquire_err ''context canceled'' # [Complete 1, Complete 2]"
  have u: "UnqualifiedSearchRegistries busy_client (systemContext sample_runtime)
      = Inr eight_registries"
    by (simp add: busy_client_def)
  have sp: "splitTerm eight_registries ''a'' = (eight_registries, ''a'')"
    by code_simp
  have l: "map_option loop_i (dispatch busy_client sample_runtime eight_registries ''a''
      sample_options ?sched) = Some 7"
    by code_simp
  then obtain s' where d: "dispatch busy_client sample_runtime eight_registries ''a''
      sample_options ?sched = Some s'"
    by (cases "dispatch busy_client sample_runtime eight_registries ''a'' sample_options ?sched")
      auto
  from acquire_cancellation[of busy_client sample_runtime eight_registries "''a''" sample_options
      ?before "''context canceled''" "[Complete 1, Complete 2]" s', THEN conjunct1] u d
  have "Search busy_client sample_runtime ''a'' sample_options ?sched
      = Some ([], Some (Plain (External ''context canceled'')))"
    unfolding sp fst_conv snd_conv by blast
  with l show ?thesis by blast
qed

text \<open>
  The claim as stated fails in its second half: registry \<open>r0\<close> has written two results
  into its slot, the six permits are held again, the acquisition for the eighth registry
  fails, and \<^verbatim>\<open>Search\<close> returns the error of the context and no result.
\<close>

theorem acquire_cancellation_counterexample:
  "Search busy_client sample_runtime ''a'' sample_options
     [Acquire_ok, Acquire_ok, Acquire_ok, Acquire_ok, Acquire_ok, Acquire_ok, Complete 0,
      Acquire_ok, Acquire_err ''context canceled'']
   = Some ([], Some (Plain (External ''context canceled'')))
   \<and> map_option (data \<circ> hd \<circ> slots)
       (dispatch busy_client sample_runtime eight_registries ''a'' sample_options
          [Acquire_ok, Acquire_ok, Acquire_ok, Acquire_ok, Acquire_ok, Acquire_ok, Complete 0,
           Acquire_ok])
     = Some [\<lparr>Index = ''r0'', Name = ''r0/alpine'', Description = ''A minimal Docker image'',
               Stars = 9000, Official = ''[OK]'', Automated = [], Tag = []\<rparr>,
             \<lparr>Index = ''r0'', Name = ''r0/foo/bar'', Description = ''An image of foo'',
               Stars = 2, Official = [], Automated = ''[OK]'', Tag = []\<rparr>]
   \<and> map_option sem_cur
       (dispatch busy_client sample_runtime eight_registries ''a'' sample_options
          [Acquire_ok, Acquire_ok, Acquire_ok, Acquire_ok, Acquire_ok, Acquire_ok, Complete 0,
           Acquire_ok])
     = Some 6"
  by code_simp

subsection \<open>The term parser\<close>

lemma strings_SplitN2_cut:
  "sep \<notin> set pre \<Longrightarrow> strings_SplitN2 (pre @ sep # rest) sep = [pre, rest]"
  by (induction pre) (auto simp: strings_SplitN2_def)

lemma strings_SplitN2_none:
  "sep \<notin> set s \<Longrightarrow> strings_SplitN2 s sep = [s]"
  by (simp add: strings_SplitN2_def)

lemma splitTerm_cut:
  "CHR ''/'' \<notin> set pre \<Longrightarrow>
     splitTerm registries (pre @ CHR ''/'' # rest) = (registries @ [pre], rest)"
  by (simp add: splitTerm_def strings_SplitN2_cut)

lemma splitTerm_none:
  "CHR ''/'' \<notin> set term \<Longrightarrow> splitTerm registries term = (registries, term)"
  by (simp add: splitTerm_def strings_SplitN2_none)

lemma Search_on_schedule:
  assumes "UnqualifiedSearchRegistries cl (systemContext r) = Inr configured"
    and "splitTerm configured term = (registries, term')"
    and "Search cl r term options sched = Some (results, e)"
    and "\<forall>x. Acquire_err x \<notin> set sched"
  shows "results = registryResults cl r term' options registries
     \<and> e = (if registryResults cl r term' options registries = []
               \<and> registryErrors cl r term' options registries \<noteq> []
            then Some (MultiError (registryErrors cl r term' options registries)) else None)"
  using Search_joined[OF assms(1,3,4)] by (simp add: assms(2) aggregate_registries)

lemma Search_on_sequential:
  assumes "UnqualifiedSearchRegistries cl (systemContext r) = Inr configured"
    and "splitTerm configured term = (registries, term')"
  shows "Search cl r term options (sequential (length registries)) =
     Some (registryResults cl r term' options registries,
           if registryResults cl r term' options registries = []
              \<and> registryErrors cl r term' options registries \<noteq> []
           then Some (MultiError (registryErrors cl r term' options registries)) else None)"
  using Search_sequential[OF assms(1), of "term" options]
  by (simp add: assms(2) aggregate_registries)

text \<open>
  C4. A term with a slash is cut at the first one: the part before it is appended to the
  configured registries as one more registry, and the part after it is the term searched
  at every registry of the extended list, the configured ones included: what
  \<^verbatim>\<open>Search\<close> returns, on the sequential schedule and on every schedule without a
  failed acquisition, are the outcomes of searching that remainder at each of them. A
  term without a slash leaves the list and the term as they are.
\<close>

theorem term_parser:
  "(CHR ''/'' \<notin> set pre \<longrightarrow>
      splitTerm registries (pre @ ''/'' @ rest) = (registries @ [pre], rest))
   \<and> (CHR ''/'' \<notin> set term \<longrightarrow> splitTerm registries term = (registries, term))
   \<and> (UnqualifiedSearchRegistries cl (systemContext r) = Inr configured
        \<and> CHR ''/'' \<notin> set pre
      \<longrightarrow> Search cl r (pre @ ''/'' @ rest) options (sequential (length configured + 1)) =
            Some (registryResults cl r rest options (configured @ [pre]),
                  if registryResults cl r rest options (configured @ [pre]) = []
                     \<and> registryErrors cl r rest options (configured @ [pre]) \<noteq> []
                  then Some (MultiError (registryErrors cl r rest options (configured @ [pre])))
                  else None)
          \<and> (\<forall>sched results e.
                Search cl r (pre @ ''/'' @ rest) options sched = Some (results, e)
                \<and> (\<forall>x. Acquire_err x \<notin> set sched)
              \<longrightarrow> results = registryResults cl r rest options (configured @ [pre])
                  \<and> e = (if results = []
                            \<and> registryErrors cl r rest options (configured @ [pre]) \<noteq> []
                         then Some (MultiError
                                (registryErrors cl r rest options (configured @ [pre])))
                         else None)))
   \<and> (UnqualifiedSearchRegistries cl (systemContext r) = Inr configured
        \<and> CHR ''/'' \<notin> set term
      \<longrightarrow> Search cl r term options (sequential (length configured)) =
            Some (registryResults cl r term options configured,
                  if registryResults cl r term options configured = []
                     \<and> registryErrors cl r term options configured \<noteq> []
                  then Some (MultiError (registryErrors cl r term options configured))
                  else None)
          \<and> (\<forall>sched results e.
                Search cl r term options sched = Some (results, e)
                \<and> (\<forall>x. Acquire_err x \<notin> set sched)
              \<longrightarrow> results = registryResults cl r term options configured
                  \<and> e = (if results = []
                            \<and> registryErrors cl r term options configured \<noteq> []
                         then Some (MultiError (registryErrors cl r term options configured))
                         else None)))"
proof -
  have cut: "CHR ''/'' \<notin> set pre \<longrightarrow>
      splitTerm registries (pre @ ''/'' @ rest) = (registries @ [pre], rest)"
    by (simp add: splitTerm_cut)
  have none: "CHR ''/'' \<notin> set term \<longrightarrow> splitTerm registries term = (registries, term)"
    by (simp add: splitTerm_none)
  have with_slash: "UnqualifiedSearchRegistries cl (systemContext r) = Inr configured
        \<and> CHR ''/'' \<notin> set pre
      \<longrightarrow> Search cl r (pre @ ''/'' @ rest) options (sequential (length configured + 1)) =
            Some (registryResults cl r rest options (configured @ [pre]),
                  if registryResults cl r rest options (configured @ [pre]) = []
                     \<and> registryErrors cl r rest options (configured @ [pre]) \<noteq> []
                  then Some (MultiError (registryErrors cl r rest options (configured @ [pre])))
                  else None)
          \<and> (\<forall>sched results e.
                Search cl r (pre @ ''/'' @ rest) options sched = Some (results, e)
                \<and> (\<forall>x. Acquire_err x \<notin> set sched)
              \<longrightarrow> results = registryResults cl r rest options (configured @ [pre])
                  \<and> e = (if results = []
                            \<and> registryErrors cl r rest options (configured @ [pre]) \<noteq> []
                         then Some (MultiError
                                (registryErrors cl r rest options (configured @ [pre])))
                         else None))"
  proof (intro impI)
    assume a: "UnqualifiedSearchRegistries cl (systemContext r) = Inr configured
        \<and> CHR ''/'' \<notin> set pre"
    then have u: "UnqualifiedSearchRegistries cl (systemContext r) = Inr configured"
      and sp: "splitTerm configured (pre @ ''/'' @ rest) = (configured @ [pre], rest)"
      by (simp_all add: splitTerm_cut)
    from Search_on_sequential[OF u sp, of options]
    have s: "Search cl r (pre @ ''/'' @ rest) options (sequential (length configured + 1)) =
            Some (registryResults cl r rest options (configured @ [pre]),
                  if registryResults cl r rest options (configured @ [pre]) = []
                     \<and> registryErrors cl r rest options (configured @ [pre]) \<noteq> []
                  then Some (MultiError (registryErrors cl r rest options (configured @ [pre])))
                  else None)"
      by simp
    have "\<forall>sched results e.
                Search cl r (pre @ ''/'' @ rest) options sched = Some (results, e)
                \<and> (\<forall>x. Acquire_err x \<notin> set sched)
              \<longrightarrow> results = registryResults cl r rest options (configured @ [pre])
                  \<and> e = (if results = []
                            \<and> registryErrors cl r rest options (configured @ [pre]) \<noteq> []
                         then Some (MultiError
                                (registryErrors cl r rest options (configured @ [pre])))
                         else None)"
      using Search_on_schedule[OF u sp] by blast
    with s show "Search cl r (pre @ ''/'' @ rest) options (sequential (length configured + 1)) =
            Some (registryResults cl r rest options (configured @ [pre]),
                  if registryResults cl r rest options (configured @ [pre]) = []
                     \<and> registryErrors cl r rest options (configured @ [pre]) \<noteq> []
                  then Some (MultiError (registryErrors cl r rest options (configured @ [pre])))
                  else None)
          \<and> (\<forall>sched results e.
                Search cl r (pre @ ''/'' @ rest) options sched = Some (results, e)
                \<and> (\<forall>x. Acquire_err x \<notin> set sched)
              \<longrightarrow> results = registryResults cl r rest options (configured @ [pre])
                  \<and> e = (if results = []
                            \<and> registryErrors cl r rest options (configured @ [pre]) \<noteq> []
                         then Some (MultiError
                                (registryErrors cl r rest options (configured @ [pre])))
                         else None))"
      by blast
  qed
  have without_slash: "UnqualifiedSearchRegistries cl (systemContext r) = Inr configured
        \<and> CHR ''/'' \<notin> set term
      \<longrightarrow> Search cl r term options (sequential (length configured)) =
            Some (registryResults cl r term options configured,
                  if registryResults cl r term options configured = []
                     \<and> registryErrors cl r term options configured \<noteq> []
                  then Some (MultiError (registryErrors cl r term options configured))
                  else None)
          \<and> (\<forall>sched results e.
                Search cl r term options sched = Some (results, e)
                \<and> (\<forall>x. Acquire_err x \<notin> set sched)
              \<longrightarrow> results = registryResults cl r term options configured
                  \<and> e = (if results = []
                            \<and> registryErrors cl r term options configured \<noteq> []
                         then Some (MultiError (registryErrors cl r term options configured))
                         else None))"
  proof (intro impI)
    assume a: "UnqualifiedSearchRegistries cl (systemContext r) = Inr configured
        \<and> CHR ''/'' \<notin> set term"
    then have u: "UnqualifiedSearchRegistries cl (systemContext r) = Inr configured"
      and sp: "splitTerm configured term = (configured, term)"
      by (simp_all add: splitTerm_none)
    from Search_on_sequential[OF u sp, of options]
    have s: "Search cl r term options (sequential (length configured)) =
            Some (registryResults cl r term options configured,
                  if registryResults cl r term options configured = []
                     \<and> registryErrors cl r term options configured \<noteq> []
                  then Some (MultiError (registryErrors cl r term options configured))
                  else None)"
      by simp
    have "\<forall>sched results e.
                Search cl r term options sched = Some (results, e)
                \<and> (\<forall>x. Acquire_err x \<notin> set sched)
              \<longrightarrow> results = registryResults cl r term options configured
                  \<and> e = (if results = []
                            \<and> registryErrors cl r term options configured \<noteq> []
                         then Some (MultiError (registryErrors cl r term options configured))
                         else None)"
      using Search_on_schedule[OF u sp] by blast
    with s show "Search cl r term options (sequential (length configured)) =
            Some (registryResults cl r term options configured,
                  if registryResults cl r term options configured = []
                     \<and> registryErrors cl r term options configured \<noteq> []
                  then Some (MultiError (registryErrors cl r term options configured))
                  else None)
          \<and> (\<forall>sched results e.
                Search cl r term options sched = Some (results, e)
                \<and> (\<forall>x. Acquire_err x \<notin> set sched)
              \<longrightarrow> results = registryResults cl r term options configured
                  \<and> e = (if results = []
                            \<and> registryErrors cl r term options configured \<noteq> []
                         then Some (MultiError (registryErrors cl r term options configured))
                         else None))"
      by blast
  qed
  from cut none with_slash without_slash show ?thesis by blast
qed


theorem term_parser_witness:
  "splitTerm [''docker.io'', ''quay.io''] ''registry.fedoraproject.org/f''
     = ([''docker.io'', ''quay.io'', ''registry.fedoraproject.org''], ''f'')
   \<and> Search sample_client sample_runtime ''registry.fedoraproject.org/f'' sample_options
       (sequential 3)
     = Some ([\<lparr>Index = ''docker.io'', Name = ''docker.io/library/alpine'',
                Description = ''A minimal Docker image'', Stars = 9000, Official = ''[OK]'',
                Automated = [], Tag = []\<rparr>,
              \<lparr>Index = ''docker.io'', Name = ''docker.io/foo/bar'',
                Description = ''An image of foo'', Stars = 2, Official = [],
                Automated = ''[OK]'', Tag = []\<rparr>,
              \<lparr>Index = ''fedoraproject.org'', Name = ''registry.fedoraproject.org/fedora'',
                Description = ''Fedora base image'', Stars = 40, Official = [],
                Automated = [], Tag = []\<rparr>], None)
   \<and> Search sample_client sample_runtime ''alpine''
       (sample_options\<lparr>Filter := \<lparr>Filter_Stars = 100000,
          Filter_IsAutomated = OptionalBoolUndefined, Filter_IsOfficial = OptionalBoolUndefined\<rparr>\<rparr>)
       (sequential 2)
     = Some ([], Some (MultiError [External ''connection refused'']))"
proof -
  let ?regs = "[''docker.io'', ''quay.io'']"
  let ?strict = "sample_options\<lparr>Filter := \<lparr>Filter_Stars = 100000,
          Filter_IsAutomated = OptionalBoolUndefined, Filter_IsOfficial = OptionalBoolUndefined\<rparr>\<rparr>"
  let ?R = "[\<lparr>Index = ''docker.io'', Name = ''docker.io/library/alpine'',
                Description = ''A minimal Docker image'', Stars = 9000, Official = ''[OK]'',
                Automated = [], Tag = []\<rparr>,
              \<lparr>Index = ''docker.io'', Name = ''docker.io/foo/bar'',
                Description = ''An image of foo'', Stars = 2, Official = [],
                Automated = ''[OK]'', Tag = []\<rparr>,
              \<lparr>Index = ''fedoraproject.org'', Name = ''registry.fedoraproject.org/fedora'',
                Description = ''Fedora base image'', Stars = 40, Official = [],
                Automated = [], Tag = []\<rparr>]"
  have u: "UnqualifiedSearchRegistries sample_client (systemContext sample_runtime) = Inr ?regs"
    by (simp add: sample_client_def)
  have c: "CHR ''/'' \<notin> set ''registry.fedoraproject.org''" "CHR ''/'' \<notin> set ''alpine''"
    by simp_all
  have tm: "''registry.fedoraproject.org'' @ ''/'' @ ''f'' = ''registry.fedoraproject.org/f''"
    by simp
  have n: "length ?regs + 1 = 3" "length ?regs = 2"
    by simp_all
  have rr: "registryResults sample_client sample_runtime ''f'' sample_options
      (?regs @ [''registry.fedoraproject.org'']) = ?R"
    by code_simp
  have rr': "registryResults sample_client sample_runtime ''alpine'' ?strict ?regs = []"
    by code_simp
  have re': "registryErrors sample_client sample_runtime ''alpine'' ?strict ?regs
      = [External ''connection refused'']"
    by code_simp
  note t = term_parser[of "''registry.fedoraproject.org''" ?regs "''f''" "''alpine''"
      sample_client sample_runtime ?regs sample_options]
  note t' = term_parser[of "''registry.fedoraproject.org''" ?regs "''f''" "''alpine''"
      sample_client sample_runtime ?regs ?strict]
  from t[THEN conjunct1, THEN mp, OF c(1)]
  have a: "splitTerm ?regs ''registry.fedoraproject.org/f''
     = ([''docker.io'', ''quay.io'', ''registry.fedoraproject.org''], ''f'')"
    unfolding tm by simp
  from t[THEN conjunct2, THEN conjunct2, THEN conjunct1, THEN mp, OF conjI[OF u c(1)],
      THEN conjunct1]
  have "Search sample_client sample_runtime ''registry.fedoraproject.org/f''
      sample_options (sequential 3) =
        Some (registryResults sample_client sample_runtime ''f'' sample_options
                (?regs @ [''registry.fedoraproject.org'']),
              if registryResults sample_client sample_runtime ''f'' sample_options
                   (?regs @ [''registry.fedoraproject.org'']) = []
                 \<and> registryErrors sample_client sample_runtime ''f'' sample_options
                   (?regs @ [''registry.fedoraproject.org'']) \<noteq> []
              then Some (MultiError (registryErrors sample_client sample_runtime ''f''
                   sample_options (?regs @ [''registry.fedoraproject.org''])))
              else None)"
    unfolding tm n(1) .
  then have b: "Search sample_client sample_runtime ''registry.fedoraproject.org/f''
      sample_options (sequential 3) = Some (?R, None)"
    unfolding rr by simp
  from t'[THEN conjunct2, THEN conjunct2, THEN conjunct2, THEN mp, OF conjI[OF u c(2)],
      THEN conjunct1]
  have "Search sample_client sample_runtime ''alpine'' ?strict (sequential 2) =
        Some (registryResults sample_client sample_runtime ''alpine'' ?strict ?regs,
              if registryResults sample_client sample_runtime ''alpine'' ?strict ?regs = []
                 \<and> registryErrors sample_client sample_runtime ''alpine'' ?strict ?regs \<noteq> []
              then Some (MultiError (registryErrors sample_client sample_runtime ''alpine''
                   ?strict ?regs))
              else None)"
    unfolding n(2) .
  then have d: "Search sample_client sample_runtime ''alpine'' ?strict (sequential 2)
      = Some ([], Some (MultiError [External ''connection refused'']))"
    unfolding rr' re' by simp
  from a b d show ?thesis by (simp only: simp_thms)
qed

end
